theory Spec2Isabelle
  imports Main "HOL-Library.Word" "HOL-Library.Sublist"
begin

section \<open>Translation of binlog records into loader transactions\<close>

text \<open>
  A shallow embedding of \<^verbatim>\<open>reparo/syncer/translate.go\<close>: \<^verbatim>\<open>pbBinlogToTxn\<close>,
  \<^verbatim>\<open>genColsAndArgs\<close> and \<^verbatim>\<open>parserSchemaTableFromDDL\<close>.

  A Go function that returns \<^verbatim>\<open>(x, err)\<close> becomes a function into \<open>failure + 'a\<close>.
  A failure is either an error value that the function returns, or a run-time panic
  (an index out of range), which returns nothing.
\<close>

subsection \<open>Wire data (package pb) and the parser's syntax tree\<close>

type_synonym byte = "8 word"

text \<open>
  The enumerations of the wire format. The switch statements of the source compare a tag
  with the named constants only; \<open>EventType_Other\<close> and \<open>BinlogType_Other\<close> stand for every
  tag that is none of the named constants and carry the raw number.
\<close>

datatype EventType = EventType_Insert | EventType_Update | EventType_Delete
  | EventType_Other int

datatype BinlogType = BinlogType_DML | BinlogType_DDL | BinlogType_Other int

text \<open>\<^verbatim>\<open>pb.Column\<close>, the result of unmarshalling one entry of a row.\<close>

record Column =
  col_Name :: string
  col_Tp :: "byte list"
  col_MysqlType :: string
  col_Value :: "byte list"
  col_ChangedValue :: "byte list"

text \<open>\<^verbatim>\<open>pb.Event\<close>: the fields hold what \<^verbatim>\<open>GetSchemaName\<close>, \<^verbatim>\<open>GetTableName\<close>,
  \<^verbatim>\<open>GetTp\<close> and \<^verbatim>\<open>GetRow\<close> return.\<close>

record Event =
  ev_SchemaName :: string
  ev_TableName :: string
  ev_Tp :: EventType
  ev_Row :: "byte list list"

text \<open>\<^verbatim>\<open>pb.DMLData\<close> and \<^verbatim>\<open>pb.Binlog\<close>. \<^verbatim>\<open>DmlData\<close> is a pointer: \<open>None\<close> is nil, and
  \<^verbatim>\<open>GetEvents\<close> of nil is the empty slice. \<^verbatim>\<open>DdlQuery\<close> is a byte slice that the source
  converts with \<^verbatim>\<open>string(...)\<close>; a \<open>string\<close> here is that byte sequence.\<close>

record DMLData =
  Events :: "Event list"

record Binlog =
  bl_Tp :: BinlogType
  bl_DdlQuery :: string
  bl_DmlData :: "DMLData option"

definition GetEvents :: "DMLData option \<Rightarrow> Event list" where
  "GetEvents data = (case data of None \<Rightarrow> [] | Some d \<Rightarrow> Events d)"

text \<open>\<^verbatim>\<open>ast.TableName\<close>: \<open>tn_Schema\<close> is \<^verbatim>\<open>Schema.O\<close> and \<open>tn_Name\<close> is \<^verbatim>\<open>Name.O\<close>.\<close>

record TableName =
  tn_Schema :: string
  tn_Name :: string

text \<open>
  The statement nodes that the type switch of \<^verbatim>\<open>parserSchemaTableFromDDL\<close> tells apart,
  each with the fields it reads: \<^verbatim>\<open>DBName\<close>, \<^verbatim>\<open>Name\<close>, \<^verbatim>\<open>Table\<close>, \<^verbatim>\<open>Tables\<close>, and for a
  rename \<^verbatim>\<open>OldTable\<close> followed by \<^verbatim>\<open>NewTable\<close>. \<open>OtherStmt\<close> is any other node.
\<close>

datatype StmtNode =
    UseStmt string
  | CreateDatabaseStmt string
  | DropDatabaseStmt string
  | TruncateTableStmt TableName
  | CreateIndexStmt TableName
  | CreateTableStmt TableName
  | DropIndexStmt TableName
  | AlterTableStmt TableName
  | DropTableStmt "TableName list"
  | RenameTableStmt TableName TableName
  | OtherStmt

subsection \<open>Errors\<close>

text \<open>
  An error value is an error of a library that the source calls (protobuf, the value
  codec, the SQL parser) with its message, an \<^verbatim>\<open>errors.Errorf\<close> with its format and
  argument, or an \<^verbatim>\<open>errors.Trace\<close> of an error.
\<close>

datatype fmt_arg = ArgString string | ArgEventType EventType | ArgBinlogType BinlogType

datatype error = External string | Errorf string fmt_arg | Trace error

datatype failure = Returned error | Panic

text \<open>
  The message of an error, \<^verbatim>\<open>err.Error()\<close>. \<^verbatim>\<open>errors.Trace\<close> records a stack and keeps
  the message. \<^verbatim>\<open>%v\<close> of an enumeration calls its \<^verbatim>\<open>String\<close> method, which protobuf
  generates: it prints the name of the constant (the name after the prefix, as in
  \<^verbatim>\<open>pb.EventType_Insert\<close>), or the number in decimal when the tag has no constant. Only
  the messages of \<^verbatim>\<open>External\<close> and \<^verbatim>\<open>Trace\<close> errors enter the properties below.
\<close>

function FormatUint :: "nat \<Rightarrow> string" where
  "FormatUint n =
     (if n < 10 then [char_of (48 + n)]
      else FormatUint (n div 10) @ [char_of (48 + n mod 10)])"
  by pat_completeness auto
termination
  by (relation "measure id") auto

definition Itoa :: "int \<Rightarrow> string" where
  "Itoa i = (if i < 0 then CHR ''-'' # FormatUint (nat (- i)) else FormatUint (nat i))"

fun EventType_String :: "EventType \<Rightarrow> string" where
  "EventType_String EventType_Insert = ''Insert''"
| "EventType_String EventType_Update = ''Update''"
| "EventType_String EventType_Delete = ''Delete''"
| "EventType_String (EventType_Other n) = Itoa n"

fun BinlogType_String :: "BinlogType \<Rightarrow> string" where
  "BinlogType_String BinlogType_DML = ''DML''"
| "BinlogType_String BinlogType_DDL = ''DDL''"
| "BinlogType_String (BinlogType_Other n) = Itoa n"

fun render_arg :: "fmt_arg \<Rightarrow> string" where
  "render_arg (ArgString s) = s"
| "render_arg (ArgEventType t) = EventType_String t"
| "render_arg (ArgBinlogType t) = BinlogType_String t"

text \<open>A format with one verb: the verb (\<^verbatim>\<open>%\<close> and the letter after it) is replaced.\<close>

fun Sprintf :: "string \<Rightarrow> string \<Rightarrow> string" where
  "Sprintf [] a = []"
| "Sprintf (c # rest) a =
     (if c = CHR ''%'' then (case rest of [] \<Rightarrow> ''%!(NOVERB)'' | v # rest' \<Rightarrow> a @ rest')
      else c # Sprintf rest a)"

fun Error :: "error \<Rightarrow> string" where
  "Error (External m) = m"
| "Error (Errorf fmt a) = Sprintf fmt (render_arg a)"
| "Error (Trace e) = Error e"

subsection \<open>The libraries the translation calls\<close>

text \<open>
  The functions that the file calls and does not define are parameters of the
  translation: \<^verbatim>\<open>col.Unmarshal\<close>, \<^verbatim>\<open>codec.DecodeOne\<close> (the remaining bytes and the
  datum), \<^verbatim>\<open>formatValue\<close>, \<^verbatim>\<open>Datum.GetValue\<close> and \<^verbatim>\<open>parser.New().Parse\<close>. \<open>'d\<close> is the
  type of a datum and \<open>'v\<close> the type of the value it holds.
\<close>

record ('d, 'v) deps =
  Unmarshal :: "byte list \<Rightarrow> error + Column"
  DecodeOne :: "byte list \<Rightarrow> error + (byte list \<times> 'd)"
  formatValue :: "'d \<Rightarrow> byte \<Rightarrow> 'd"
  GetValue :: "'d \<Rightarrow> 'v"
  Parse :: "string \<Rightarrow> error + StmtNode list"

subsection \<open>The output (package loader)\<close>

datatype DMLType = InsertDMLType | UpdateDMLType | DeleteDMLType

text \<open>\<^verbatim>\<open>loader.DML\<close>, \<^verbatim>\<open>loader.DDL\<close> and \<^verbatim>\<open>loader.Txn\<close>. A Go map is nil until it is made:
  \<open>None\<close> is the nil map and \<open>Some m\<close> a map that was made.\<close>

record 'v DML =
  dml_Database :: string
  dml_Table :: string
  dml_Tp :: DMLType
  dml_Values :: "(string \<rightharpoonup> 'v) option"
  dml_OldValues :: "(string \<rightharpoonup> 'v) option"

record DDL =
  ddl_Database :: string
  ddl_Table :: string
  ddl_SQL :: string

record 'v Txn =
  txn_DDL :: "DDL option"
  txn_DMLs :: "'v DML list"

subsection \<open>genColsAndArgs\<close>

text \<open>
  The loop over the row, with the two slices it appends to. \<^verbatim>\<open>col.Tp[0]\<close> panics when
  \<^verbatim>\<open>col.Tp\<close> is empty. The call of \<^verbatim>\<open>log.Debugf\<close> has no effect on the result.
\<close>

fun genColsAndArgs_loop ::
  "('d, 'v) deps \<Rightarrow> byte list list \<Rightarrow> string list \<Rightarrow> 'v list
    \<Rightarrow> failure + (string list \<times> 'v list)" where
  "genColsAndArgs_loop P [] cols args = Inr (cols, args)"
| "genColsAndArgs_loop P (c # row) cols args =
     (case Unmarshal P c of
        Inl err \<Rightarrow> Inl (Returned (Trace err))
      | Inr col \<Rightarrow>
          (case DecodeOne P (col_Value col) of
             Inl err \<Rightarrow> Inl (Returned (Trace err))
           | Inr (remain, val) \<Rightarrow>
               (case col_Tp col of
                  [] \<Rightarrow> Inl Panic
                | tp # _ \<Rightarrow>
                    genColsAndArgs_loop P row (cols @ [col_Name col])
                      (args @ [GetValue P (formatValue P val tp)]))))"

definition genColsAndArgs ::
  "('d, 'v) deps \<Rightarrow> byte list list \<Rightarrow> failure + (string list \<times> 'v list)" where
  "genColsAndArgs P row = genColsAndArgs_loop P row [] []"

subsection \<open>pbBinlogToTxn\<close>

text \<open>
  \<^verbatim>\<open>for i := 0; i < len(cols); i++ { dml.Values[cols[i]] = args[i] }\<close>, from index \<open>i\<close>
  on. \<^verbatim>\<open>args[i]\<close> panics when \<open>i\<close> is not below the length of \<^verbatim>\<open>args\<close>.
\<close>

function setValues ::
  "string list \<Rightarrow> 'v list \<Rightarrow> nat \<Rightarrow> (string \<rightharpoonup> 'v) \<Rightarrow> failure + (string \<rightharpoonup> 'v)" where
  "setValues cols args i m =
     (if i < length cols then
        (if i < length args then setValues cols args (Suc i) (m(cols ! i \<mapsto> args ! i))
         else Inl Panic)
      else Inr m)"
  by pat_completeness auto
termination
  by (relation "measure (\<lambda>(cols, args, i, m). length cols - i)") auto

declare setValues.simps [simp del]

text \<open>
  The loop of the Update case over the row, with the two maps it fills: \<open>vs\<close> is
  \<^verbatim>\<open>dml.Values\<close> and \<open>os\<close> is \<^verbatim>\<open>dml.OldValues\<close>.
\<close>

fun updateValues ::
  "('d, 'v) deps \<Rightarrow> byte list list \<Rightarrow> (string \<rightharpoonup> 'v) \<Rightarrow> (string \<rightharpoonup> 'v)
    \<Rightarrow> failure + ((string \<rightharpoonup> 'v) \<times> (string \<rightharpoonup> 'v))" where
  "updateValues P [] vs os = Inr (vs, os)"
| "updateValues P (c # row) vs os =
     (case Unmarshal P c of
        Inl err \<Rightarrow> Inl (Returned (Trace err))
      | Inr col \<Rightarrow>
          (case DecodeOne P (col_Value col) of
             Inl err \<Rightarrow> Inl (Returned (Trace err))
           | Inr (remain, oldDatum) \<Rightarrow>
               (case DecodeOne P (col_ChangedValue col) of
                  Inl err \<Rightarrow> Inl (Returned (Trace err))
                | Inr (remain', newDatum) \<Rightarrow>
                    (case col_Tp col of
                       [] \<Rightarrow> Inl Panic
                     | tp # _ \<Rightarrow>
                         updateValues P row
                           (vs(col_Name col \<mapsto> GetValue P (formatValue P newDatum tp)))
                           (os(col_Name col \<mapsto> GetValue P (formatValue P oldDatum tp)))))))"

text \<open>The Insert and the Delete case share their code but for the type they set.\<close>

definition singleImage ::
  "('d, 'v) deps \<Rightarrow> DMLType \<Rightarrow> Event \<Rightarrow> failure + 'v DML" where
  "singleImage P tp event =
     (case genColsAndArgs P (ev_Row event) of
        Inl (Returned err) \<Rightarrow> Inl (Returned (Trace err))
      | Inl Panic \<Rightarrow> Inl Panic
      | Inr (cols, args) \<Rightarrow>
          (case setValues cols args 0 Map.empty of
             Inl f \<Rightarrow> Inl f
           | Inr m \<Rightarrow>
               Inr \<lparr>dml_Database = ev_SchemaName event, dml_Table = ev_TableName event,
                    dml_Tp = tp, dml_Values = Some m, dml_OldValues = None\<rparr>))"

text \<open>The body of the loop over the events: the \<^verbatim>\<open>loader.DML\<close> of one event.\<close>

definition eventToDML :: "('d, 'v) deps \<Rightarrow> Event \<Rightarrow> failure + 'v DML" where
  "eventToDML P event =
     (case ev_Tp event of
        EventType_Insert \<Rightarrow> singleImage P InsertDMLType event
      | EventType_Update \<Rightarrow>
          (case updateValues P (ev_Row event) Map.empty Map.empty of
             Inl f \<Rightarrow> Inl f
           | Inr (vs, os) \<Rightarrow>
               Inr \<lparr>dml_Database = ev_SchemaName event, dml_Table = ev_TableName event,
                    dml_Tp = UpdateDMLType, dml_Values = Some vs, dml_OldValues = Some os\<rparr>)
      | EventType_Delete \<Rightarrow> singleImage P DeleteDMLType event
      | EventType_Other n \<Rightarrow>
          Inl (Returned (Errorf ''unknown type: %v'' (ArgEventType (ev_Tp event)))))"

text \<open>
  The loop over the events. The source appends the pointer \<^verbatim>\<open>dml\<close> to \<^verbatim>\<open>txn.DMLs\<close> and
  fills it afterwards; a failure returns nil for the transaction, so the transaction
  that is returned holds each \<^verbatim>\<open>dml\<close> as filled, in the order appended.
\<close>

fun eventsToDMLs ::
  "('d, 'v) deps \<Rightarrow> Event list \<Rightarrow> 'v DML list \<Rightarrow> failure + 'v DML list" where
  "eventsToDMLs P [] dmls = Inr dmls"
| "eventsToDMLs P (event # events) dmls =
     (case eventToDML P event of
        Inl f \<Rightarrow> Inl f
      | Inr dml \<Rightarrow> eventsToDMLs P events (dmls @ [dml]))"

subsection \<open>parserSchemaTableFromDDL\<close>

record resolver =
  haveUseStmt :: bool
  schema :: string
  table :: string

text \<open>\<^verbatim>\<open>if len(t.Schema.O) != 0 { schema = t.Schema.O }; table = t.Name.O\<close>, which the
  source writes out in each case that has a table.\<close>

definition setTable :: "TableName \<Rightarrow> resolver \<Rightarrow> resolver" where
  "setTable t r =
     (if length (tn_Schema t) \<noteq> 0 then r\<lparr>schema := tn_Schema t, table := tn_Name t\<rparr>
      else r\<lparr>table := tn_Name t\<rparr>)"

text \<open>One turn of the loop over the statements. \<^verbatim>\<open>node.Tables[0]\<close> panics when
  \<^verbatim>\<open>node.Tables\<close> is empty.\<close>

fun visitStmt :: "string \<Rightarrow> StmtNode \<Rightarrow> resolver \<Rightarrow> failure + resolver" where
  "visitStmt ddlQuery (UseStmt dbName) r = Inr (r\<lparr>haveUseStmt := True, schema := dbName\<rparr>)"
| "visitStmt ddlQuery (CreateDatabaseStmt name) r = Inr (r\<lparr>schema := name\<rparr>)"
| "visitStmt ddlQuery (DropDatabaseStmt name) r = Inr (r\<lparr>schema := name\<rparr>)"
| "visitStmt ddlQuery (TruncateTableStmt t) r = Inr (setTable t r)"
| "visitStmt ddlQuery (CreateIndexStmt t) r = Inr (setTable t r)"
| "visitStmt ddlQuery (CreateTableStmt t) r = Inr (setTable t r)"
| "visitStmt ddlQuery (DropIndexStmt t) r = Inr (setTable t r)"
| "visitStmt ddlQuery (AlterTableStmt t) r = Inr (setTable t r)"
| "visitStmt ddlQuery (DropTableStmt ts) r =
     (case ts of [] \<Rightarrow> Inl Panic | t # _ \<Rightarrow> Inr (setTable t r))"
| "visitStmt ddlQuery (RenameTableStmt oldTable newTable) r = Inr (setTable newTable r)"
| "visitStmt ddlQuery OtherStmt r =
     Inl (Returned (Errorf ''unknown ddl type, ddl: %s'' (ArgString ddlQuery)))"

fun visitStmts :: "string \<Rightarrow> StmtNode list \<Rightarrow> resolver \<Rightarrow> failure + resolver" where
  "visitStmts ddlQuery [] r = Inr r"
| "visitStmts ddlQuery (stmt # stmts) r =
     (case visitStmt ddlQuery stmt r of
        Inl f \<Rightarrow> Inl f
      | Inr r' \<Rightarrow> visitStmts ddlQuery stmts r')"

definition parserSchemaTableFromDDL ::
  "('d, 'v) deps \<Rightarrow> string \<Rightarrow> failure + (string \<times> string)" where
  "parserSchemaTableFromDDL P ddlQuery =
     (case Parse P ddlQuery of
        Inl err \<Rightarrow> Inl (Returned err)
      | Inr stmts \<Rightarrow>
          (case visitStmts ddlQuery stmts
                  \<lparr>haveUseStmt = False, schema = [], table = []\<rparr> of
             Inl f \<Rightarrow> Inl f
           | Inr r \<Rightarrow>
               (if haveUseStmt r then
                  (if length stmts \<noteq> 2
                   then Inl (Returned (Errorf ''invalid ddl %s'' (ArgString ddlQuery)))
                   else Inr (schema r, table r))
                else
                  (if length stmts \<noteq> 1
                   then Inl (Returned (Errorf ''invalid ddl %s'' (ArgString ddlQuery)))
                   else Inr (schema r, table r)))))"

subsection \<open>pbBinlogToTxn, the entry point\<close>

definition pbBinlogToTxn :: "('d, 'v) deps \<Rightarrow> Binlog \<Rightarrow> failure + 'v Txn" where
  "pbBinlogToTxn P binlog =
     (case bl_Tp binlog of
        BinlogType_DDL \<Rightarrow>
          (case parserSchemaTableFromDDL P (bl_DdlQuery binlog) of
             Inl (Returned err) \<Rightarrow> Inl (Returned (Trace err))
           | Inl Panic \<Rightarrow> Inl Panic
           | Inr (db, tbl) \<Rightarrow>
               (if length db = 0 then
                  Inl (Returned (Errorf ''can't parse database name from DDL %s''
                                   (ArgString (bl_DdlQuery binlog))))
                else
                  Inr \<lparr>txn_DDL = Some \<lparr>ddl_Database = db, ddl_Table = tbl,
                                         ddl_SQL = bl_DdlQuery binlog\<rparr>,
                       txn_DMLs = []\<rparr>))
      | BinlogType_DML \<Rightarrow>
          (case eventsToDMLs P (GetEvents (bl_DmlData binlog)) [] of
             Inl f \<Rightarrow> Inl f
           | Inr dmls \<Rightarrow> Inr \<lparr>txn_DDL = None, txn_DMLs = dmls\<rparr>)
      | BinlogType_Other n \<Rightarrow>
          Inl (Returned (Errorf ''unknown type: %v'' (ArgBinlogType (bl_Tp binlog)))))"

subsection \<open>Stand-ins for the libraries, to run the translation on concrete records\<close>

text \<open>
  A small table in place of protobuf: the entry \<open>[n]\<close> is one of five columns, any
  other entry does not unmarshal. The entry \<open>[2]\<close> has an empty current payload, the
  entry \<open>[3]\<close> an empty type descriptor, and the entry \<open>[4]\<close> has the name of \<open>[1]\<close>.
\<close>

definition ex_Unmarshal :: "byte list \<Rightarrow> error + Column" where
  "ex_Unmarshal c =
     (if c = [1] then
        Inr \<lparr>col_Name = ''id'', col_Tp = [3], col_MysqlType = ''int'',
             col_Value = [7], col_ChangedValue = [9]\<rparr>
      else if c = [2] then
        Inr \<lparr>col_Name = ''price'', col_Tp = [8], col_MysqlType = ''bigint'',
             col_Value = [], col_ChangedValue = [5]\<rparr>
      else if c = [3] then
        Inr \<lparr>col_Name = ''name'', col_Tp = [], col_MysqlType = ''varchar'',
             col_Value = [1], col_ChangedValue = [2]\<rparr>
      else if c = [4] then
        Inr \<lparr>col_Name = ''id'', col_Tp = [3], col_MysqlType = ''int'',
             col_Value = [8], col_ChangedValue = [6]\<rparr>
      else if c = [5] then
        Inr \<lparr>col_Name = ''qty'', col_Tp = [3], col_MysqlType = ''int'',
             col_Value = [4], col_ChangedValue = [4]\<rparr>
      else Inl (External ''proto: illegal wireType''))"

text \<open>A codec whose datum is the first byte of the payload; it rejects the empty payload.\<close>

definition ex_DecodeOne :: "byte list \<Rightarrow> error + (byte list \<times> byte)" where
  "ex_DecodeOne b =
     (case b of [] \<Rightarrow> Inl (External ''invalid encoded key'') | x # remain \<Rightarrow> Inr (remain, x))"

text \<open>A parser that knows seven texts.\<close>

definition ex_Parse :: "string \<Rightarrow> error + StmtNode list" where
  "ex_Parse q =
     (if q = ''USE db1; CREATE TABLE t (a int)'' then
        Inr [UseStmt ''db1'', CreateTableStmt \<lparr>tn_Schema = [], tn_Name = ''t''\<rparr>]
      else if q = ''USE db1; CREATE TABLE db2.t (a int)'' then
        Inr [UseStmt ''db1'', CreateTableStmt \<lparr>tn_Schema = ''db2'', tn_Name = ''t''\<rparr>]
      else if q = ''RENAME TABLE old_db.old_t TO new_db.new_t'' then
        Inr [RenameTableStmt \<lparr>tn_Schema = ''old_db'', tn_Name = ''old_t''\<rparr>
                             \<lparr>tn_Schema = ''new_db'', tn_Name = ''new_t''\<rparr>]
      else if q = ''USE db1'' then Inr [UseStmt ''db1'']
      else if q = ''CREATE TABLE t (a int)'' then
        Inr [CreateTableStmt \<lparr>tn_Schema = [], tn_Name = ''t''\<rparr>]
      else if q = ''CREATE TABLE db2.t (a int); USE db1'' then
        Inr [CreateTableStmt \<lparr>tn_Schema = ''db2'', tn_Name = ''t''\<rparr>, UseStmt ''db1'']
      else if q = ''RENAME TABLE old_db.old_t TO new_db.new_t; USE x'' then
        Inr [RenameTableStmt \<lparr>tn_Schema = ''old_db'', tn_Name = ''old_t''\<rparr>
                             \<lparr>tn_Schema = ''new_db'', tn_Name = ''new_t''\<rparr>,
             UseStmt ''x'']
      else Inl (External ''syntax error''))"

definition ex_deps :: "(byte, nat) deps" where
  "ex_deps = \<lparr>Unmarshal = ex_Unmarshal, DecodeOne = ex_DecodeOne,
              formatValue = (\<lambda>d tp. d + tp), GetValue = unat, Parse = ex_Parse\<rparr>"

definition ex_ddl :: "string \<Rightarrow> Binlog" where
  "ex_ddl q = \<lparr>bl_Tp = BinlogType_DDL, bl_DdlQuery = q, bl_DmlData = None\<rparr>"

definition ex_event :: "EventType \<Rightarrow> byte list list \<Rightarrow> Event" where
  "ex_event tp row = \<lparr>ev_SchemaName = ''shop'', ev_TableName = ''orders'', ev_Tp = tp, ev_Row = row\<rparr>"

definition ex_dml :: "Event list \<Rightarrow> Binlog" where
  "ex_dml events = \<lparr>bl_Tp = BinlogType_DML, bl_DdlQuery = [], bl_DmlData = Some \<lparr>Events = events\<rparr>\<rparr>"

definition ex_insert_dml :: "nat DML" where
  "ex_insert_dml =
     \<lparr>dml_Database = ''shop'', dml_Table = ''orders'', dml_Tp = InsertDMLType,
      dml_Values = Some [''id'' \<mapsto> 10, ''qty'' \<mapsto> 7], dml_OldValues = None\<rparr>"

definition ex_update_dml :: "nat DML" where
  "ex_update_dml =
     \<lparr>dml_Database = ''shop'', dml_Table = ''orders'', dml_Tp = UpdateDMLType,
      dml_Values = Some [''id'' \<mapsto> 12, ''qty'' \<mapsto> 7],
      dml_OldValues = Some [''id'' \<mapsto> 10, ''qty'' \<mapsto> 7]\<rparr>"

section \<open>Properties\<close>

subsection \<open>The statement walk\<close>

lemma visitStmts_haveUseStmt:
  "visitStmts q stmts r = Inr r' \<Longrightarrow>
   haveUseStmt r' = (haveUseStmt r \<or> (\<exists>db. UseStmt db \<in> set stmts))"
proof (induction stmts arbitrary: r)
  case Nil
  then show ?case by simp
next
  case (Cons s stmts)
  then show ?case
    by (cases s) (auto simp: setTable_def split: sum.splits list.splits if_splits)
qed

lemma visitStmts_succeeds:
  "OtherStmt \<notin> set stmts \<Longrightarrow> DropTableStmt [] \<notin> set stmts \<Longrightarrow>
   \<exists>r'. visitStmts q stmts r = Inr r'"
proof (induction stmts arbitrary: r)
  case Nil
  then show ?case by simp
next
  case (Cons s stmts)
  then show ?case
    by (cases s) (auto split: sum.splits list.splits)
qed

text \<open>What the stand-in parser returns, and one resolution on it.\<close>

lemma ex_parse_use: "Parse ex_deps ''USE db1'' = Inr [UseStmt ''db1'']"
  by (simp add: ex_deps_def ex_Parse_def)

lemma ex_parse_use_create:
  "Parse ex_deps ''USE db1; CREATE TABLE t (a int)'' =
     Inr [UseStmt ''db1'', CreateTableStmt \<lparr>tn_Schema = [], tn_Name = ''t''\<rparr>]"
  by (simp add: ex_deps_def ex_Parse_def)

lemma ex_parse_use_create_qualified:
  "Parse ex_deps ''USE db1; CREATE TABLE db2.t (a int)'' =
     Inr [UseStmt ''db1'', CreateTableStmt \<lparr>tn_Schema = ''db2'', tn_Name = ''t''\<rparr>]"
  by (simp add: ex_deps_def ex_Parse_def)

lemma ex_parse_rename:
  "Parse ex_deps ''RENAME TABLE old_db.old_t TO new_db.new_t'' =
     Inr [RenameTableStmt \<lparr>tn_Schema = ''old_db'', tn_Name = ''old_t''\<rparr>
                          \<lparr>tn_Schema = ''new_db'', tn_Name = ''new_t''\<rparr>]"
  by (simp add: ex_deps_def ex_Parse_def)

lemma ex_parse_create:
  "Parse ex_deps ''CREATE TABLE t (a int)'' =
     Inr [CreateTableStmt \<lparr>tn_Schema = [], tn_Name = ''t''\<rparr>]"
  by (simp add: ex_deps_def ex_Parse_def)

lemma ex_resolve_use_create:
  "parserSchemaTableFromDDL ex_deps ''USE db1; CREATE TABLE t (a int)'' = Inr (''db1'', ''t'')"
  by (simp add: parserSchemaTableFromDDL_def ex_parse_use_create setTable_def)

lemma ex_resolve_create:
  "parserSchemaTableFromDDL ex_deps ''CREATE TABLE t (a int)'' = Inr ([], ''t'')"
  by (simp add: parserSchemaTableFromDDL_def ex_parse_create setTable_def)

lemma ex_resolve_use:
  "parserSchemaTableFromDDL ex_deps ''USE db1'' =
     Inl (Returned (Errorf ''invalid ddl %s'' (ArgString ''USE db1'')))"
  by (simp add: parserSchemaTableFromDDL_def ex_parse_use)

lemma resolve_Inr_count:
  assumes "Parse P q = Inr stmts" and "parserSchemaTableFromDDL P q = Inr (s, t)"
  shows "length stmts = (if \<exists>db. UseStmt db \<in> set stmts then 2 else 1)"
proof -
  from assms obtain r where
    r: "visitStmts q stmts \<lparr>haveUseStmt = False, schema = [], table = []\<rparr> = Inr r"
    by (auto simp: parserSchemaTableFromDDL_def split: sum.splits)
  from visitStmts_haveUseStmt[OF r]
  have "haveUseStmt r = (\<exists>db. UseStmt db \<in> set stmts)" by simp
  with assms r show ?thesis
    by (auto simp: parserSchemaTableFromDDL_def split: if_splits)
qed

lemma resolve_Inr_shape:
  assumes "Parse P q = Inr stmts" and "parserSchemaTableFromDDL P q = Inr (s, t)"
    and "st \<in> set stmts" and "\<forall>db. st \<noteq> UseStmt db"
  shows "stmts = [st] \<or> (\<exists>db. stmts = [UseStmt db, st]) \<or> (\<exists>db. stmts = [st, UseStmt db])"
proof (cases "\<exists>db. UseStmt db \<in> set stmts")
  case False
  with resolve_Inr_count[OF assms(1,2)] have "length stmts = 1" by simp
  then obtain a where "stmts = [a]" by (cases stmts) auto
  with assms(3) show ?thesis by simp
next
  case True
  then obtain db where db: "UseStmt db \<in> set stmts" ..
  from True resolve_Inr_count[OF assms(1,2)] have "length stmts = 2" by simp
  then obtain a b where ab: "stmts = [a, b]"
    by (cases stmts; cases "tl stmts") auto
  with db assms(3,4) show ?thesis by auto
qed

lemma ex_parse_create_then_use:
  "Parse ex_deps ''CREATE TABLE db2.t (a int); USE db1'' =
     Inr [CreateTableStmt \<lparr>tn_Schema = ''db2'', tn_Name = ''t''\<rparr>, UseStmt ''db1'']"
  by (simp add: ex_deps_def ex_Parse_def)

lemma ex_parse_rename_then_use:
  "Parse ex_deps ''RENAME TABLE old_db.old_t TO new_db.new_t; USE x'' =
     Inr [RenameTableStmt \<lparr>tn_Schema = ''old_db'', tn_Name = ''old_t''\<rparr>
                          \<lparr>tn_Schema = ''new_db'', tn_Name = ''new_t''\<rparr>,
          UseStmt ''x'']"
  by (simp add: ex_deps_def ex_Parse_def)

subsection \<open>The DDL target\<close>

text \<open>
  C3. When the text parses, the resolution returns a schema and a table only under the
  statement-count rule: two statements when one of them is a \<^verbatim>\<open>USE\<close>, one statement
  otherwise. When every statement is of a kind the resolver knows (and a \<^verbatim>\<open>DROP TABLE\<close>
  names a table) and the count is any other, the resolution returns the error
  \<^verbatim>\<open>invalid ddl ...\<close> with the text.
\<close>

theorem statement_count_rule:
  assumes "Parse P q = Inr stmts"
  shows "(\<forall>s t. parserSchemaTableFromDDL P q = Inr (s, t) \<longrightarrow>
            length stmts = (if \<exists>db. UseStmt db \<in> set stmts then 2 else 1))
       \<and> (OtherStmt \<notin> set stmts \<and> DropTableStmt [] \<notin> set stmts
            \<and> length stmts \<noteq> (if \<exists>db. UseStmt db \<in> set stmts then 2 else 1) \<longrightarrow>
          parserSchemaTableFromDDL P q =
            Inl (Returned (Errorf ''invalid ddl %s'' (ArgString q))))"
proof (intro conjI allI impI)
  fix s t
  assume ok: "parserSchemaTableFromDDL P q = Inr (s, t)"
  then obtain r where
    r: "visitStmts q stmts \<lparr>haveUseStmt = False, schema = [], table = []\<rparr> = Inr r"
    using assms by (auto simp: parserSchemaTableFromDDL_def split: sum.splits)
  from visitStmts_haveUseStmt[OF r]
  have "haveUseStmt r = (\<exists>db. UseStmt db \<in> set stmts)" by simp
  with ok r assms show "length stmts = (if \<exists>db. UseStmt db \<in> set stmts then 2 else 1)"
    by (auto simp: parserSchemaTableFromDDL_def split: if_splits)
next
  assume h: "OtherStmt \<notin> set stmts \<and> DropTableStmt [] \<notin> set stmts
            \<and> length stmts \<noteq> (if \<exists>db. UseStmt db \<in> set stmts then 2 else 1)"
  then obtain r where
    r: "visitStmts q stmts \<lparr>haveUseStmt = False, schema = [], table = []\<rparr> = Inr r"
    using visitStmts_succeeds by blast
  from visitStmts_haveUseStmt[OF r]
  have "haveUseStmt r = (\<exists>db. UseStmt db \<in> set stmts)" by simp
  with h r assms
  show "parserSchemaTableFromDDL P q = Inl (Returned (Errorf ''invalid ddl %s'' (ArgString q)))"
    by (auto simp: parserSchemaTableFromDDL_def split: if_splits)
qed

theorem statement_count_rule_witness:
  "parserSchemaTableFromDDL ex_deps ''USE db1'' =
     Inl (Returned (Errorf ''invalid ddl %s'' (ArgString ''USE db1'')))
   \<and> parserSchemaTableFromDDL ex_deps ''USE db1; CREATE TABLE t (a int)'' = Inr (''db1'', ''t'')
   \<and> length [UseStmt ''db1'', CreateTableStmt \<lparr>tn_Schema = [], tn_Name = ''t''\<rparr>] = 2"
proof -
  have "parserSchemaTableFromDDL ex_deps ''USE db1'' =
     Inl (Returned (Errorf ''invalid ddl %s'' (ArgString ''USE db1'')))"
    using statement_count_rule [OF ex_parse_use] by simp
  moreover
  have "length [UseStmt ''db1'', CreateTableStmt \<lparr>tn_Schema = [], tn_Name = ''t''\<rparr>] = 2"
    using statement_count_rule [OF ex_parse_use_create] ex_resolve_use_create by simp
  ultimately show ?thesis
    using ex_resolve_use_create by simp
qed

text \<open>
  C4, as the code has it. Let \<open>st\<close> be a statement on a table \<open>t\<close> (for \<^verbatim>\<open>DROP TABLE\<close>
  the first table, for \<^verbatim>\<open>RENAME TABLE\<close> the new one). After a \<^verbatim>\<open>USE db\<close> it resolves to
  the schema qualifier of \<open>t\<close> when \<open>t\<close> has one, and to \<open>db\<close> when it has none. Alone it
  resolves to the qualifier of \<open>t\<close>. Before a \<^verbatim>\<open>USE db\<close> it resolves to \<open>db\<close>, with or
  without a qualifier: the later \<^verbatim>\<open>USE\<close> replaces the schema. The table is the name of
  \<open>t\<close> each time, and a text with \<open>st\<close> resolves in these three shapes only.
\<close>

theorem qualifier_and_use:
  assumes "st \<in> set [TruncateTableStmt t, CreateIndexStmt t, CreateTableStmt t,
                      DropIndexStmt t, AlterTableStmt t, DropTableStmt (t # others),
                      RenameTableStmt old t]"
  shows "(Parse P q = Inr [UseStmt db, st] \<longrightarrow>
            parserSchemaTableFromDDL P q =
              Inr (if tn_Schema t \<noteq> [] then tn_Schema t else db, tn_Name t))
       \<and> (Parse P q = Inr [st] \<longrightarrow>
            parserSchemaTableFromDDL P q = Inr (tn_Schema t, tn_Name t))
       \<and> (Parse P q = Inr [st, UseStmt db] \<longrightarrow>
            parserSchemaTableFromDDL P q = Inr (db, tn_Name t))
       \<and> (\<forall>stmts s tbl. Parse P q = Inr stmts \<and> st \<in> set stmts
              \<and> parserSchemaTableFromDDL P q = Inr (s, tbl) \<longrightarrow>
            stmts = [st] \<or> (\<exists>db'. stmts = [UseStmt db', st])
              \<or> (\<exists>db'. stmts = [st, UseStmt db']))"
proof (intro conjI allI impI)
  show "parserSchemaTableFromDDL P q =
          Inr (if tn_Schema t \<noteq> [] then tn_Schema t else db, tn_Name t)"
    if "Parse P q = Inr [UseStmt db, st]"
    using assms that by (auto simp: parserSchemaTableFromDDL_def setTable_def)
  show "parserSchemaTableFromDDL P q = Inr (tn_Schema t, tn_Name t)"
    if "Parse P q = Inr [st]"
    using assms that by (auto simp: parserSchemaTableFromDDL_def setTable_def)
  show "parserSchemaTableFromDDL P q = Inr (db, tn_Name t)"
    if "Parse P q = Inr [st, UseStmt db]"
    using assms that by (auto simp: parserSchemaTableFromDDL_def setTable_def)
  show "stmts = [st] \<or> (\<exists>db'. stmts = [UseStmt db', st]) \<or> (\<exists>db'. stmts = [st, UseStmt db'])"
    if h: "Parse P q = Inr stmts \<and> st \<in> set stmts \<and> parserSchemaTableFromDDL P q = Inr (s, tbl)"
    for stmts s tbl
  proof -
    from assms have "\<forall>db. st \<noteq> UseStmt db" by auto
    with h resolve_Inr_shape[of P q stmts s tbl st] show ?thesis by blast
  qed
qed

theorem qualifier_and_use_witness:
  "parserSchemaTableFromDDL ex_deps ''USE db1; CREATE TABLE t (a int)'' = Inr (''db1'', ''t'')
   \<and> parserSchemaTableFromDDL ex_deps ''USE db1; CREATE TABLE db2.t (a int)'' =
       Inr (''db2'', ''t'')
   \<and> parserSchemaTableFromDDL ex_deps ''CREATE TABLE t (a int)'' = Inr ([], ''t'')
   \<and> parserSchemaTableFromDDL ex_deps ''CREATE TABLE db2.t (a int); USE db1'' =
       Inr (''db1'', ''t'')"
proof -
  let ?t = "\<lparr>tn_Schema = [], tn_Name = ''t''\<rparr>"
  let ?t2 = "\<lparr>tn_Schema = ''db2'', tn_Name = ''t''\<rparr>"
  have m: "CreateTableStmt u \<in> set [TruncateTableStmt u, CreateIndexStmt u, CreateTableStmt u,
                      DropIndexStmt u, AlterTableStmt u, DropTableStmt (u # []),
                      RenameTableStmt u u]" for u
    by simp
  note a = qualifier_and_use [OF m, of ex_deps "''USE db1; CREATE TABLE t (a int)''" "''db1''" ?t]
  note b = qualifier_and_use [OF m, of ex_deps "''USE db1; CREATE TABLE db2.t (a int)''" "''db1''" ?t2]
  note c = qualifier_and_use [OF m, of ex_deps "''CREATE TABLE t (a int)''" _ ?t]
  note d = qualifier_and_use [OF m, of ex_deps "''CREATE TABLE db2.t (a int); USE db1''" "''db1''" ?t2]
  from a have 1: "parserSchemaTableFromDDL ex_deps ''USE db1; CREATE TABLE t (a int)'' =
      Inr (''db1'', ''t'')"
    by (simp add: ex_parse_use_create)
  from b have 2: "parserSchemaTableFromDDL ex_deps ''USE db1; CREATE TABLE db2.t (a int)'' =
       Inr (''db2'', ''t'')"
    by (simp add: ex_parse_use_create_qualified)
  from c have 3: "parserSchemaTableFromDDL ex_deps ''CREATE TABLE t (a int)'' = Inr ([], ''t'')"
    by (simp add: ex_parse_create)
  from d have 4: "parserSchemaTableFromDDL ex_deps ''CREATE TABLE db2.t (a int); USE db1'' =
       Inr (''db1'', ''t'')"
    by (simp add: ex_parse_create_then_use)
  from d[THEN conjunct2, THEN conjunct2, THEN conjunct2, rule_format,
         of "[CreateTableStmt ?t2, UseStmt ''db1'']" "''db1''" "''t''"]
       ex_parse_create_then_use 4
  have "[CreateTableStmt ?t2, UseStmt ''db1''] = [CreateTableStmt ?t2]
      \<or> (\<exists>db'. [CreateTableStmt ?t2, UseStmt ''db1''] = [UseStmt db', CreateTableStmt ?t2])
      \<or> (\<exists>db'. [CreateTableStmt ?t2, UseStmt ''db1''] = [CreateTableStmt ?t2, UseStmt db'])"
    by simp
  with 1 2 3 4 show ?thesis by simp
qed

text \<open>
  C4, as the claim states it, fails when the \<^verbatim>\<open>USE\<close> comes second: the statement
  \<^verbatim>\<open>CREATE TABLE db2.t\<close> carries the qualifier \<^verbatim>\<open>db2\<close>, the text resolves, and the schema
  is \<^verbatim>\<open>db1\<close>.
\<close>

theorem trailing_use_counterexample:
  "Parse ex_deps ''CREATE TABLE db2.t (a int); USE db1'' =
     Inr [CreateTableStmt \<lparr>tn_Schema = ''db2'', tn_Name = ''t''\<rparr>, UseStmt ''db1'']
   \<and> parserSchemaTableFromDDL ex_deps ''CREATE TABLE db2.t (a int); USE db1'' =
       Inr (''db1'', ''t'')
   \<and> ''db1'' \<noteq> tn_Schema \<lparr>tn_Schema = ''db2'', tn_Name = ''t''\<rparr>"
  by (simp add: parserSchemaTableFromDDL_def ex_parse_create_then_use setTable_def)

text \<open>
  C9, as the code has it. A \<^verbatim>\<open>RENAME TABLE\<close> resolves to the name of the new table, and
  to the schema qualifier of the new table when it stands alone, or after a \<^verbatim>\<open>USE db\<close>
  with a qualified new table; to \<open>db\<close> after a \<^verbatim>\<open>USE db\<close> with an unqualified new table,
  and to \<open>db\<close> before a \<^verbatim>\<open>USE db\<close>. A text with the \<^verbatim>\<open>RENAME TABLE\<close> resolves in these
  three shapes only, so the old table has no part in any result.
\<close>

theorem rename_new_table_and_use:
  "(Parse P q = Inr [RenameTableStmt oldTable newTable] \<longrightarrow>
      parserSchemaTableFromDDL P q = Inr (tn_Schema newTable, tn_Name newTable))
   \<and> (Parse P q = Inr [UseStmt db, RenameTableStmt oldTable newTable] \<longrightarrow>
      parserSchemaTableFromDDL P q =
        Inr (if tn_Schema newTable \<noteq> [] then tn_Schema newTable else db, tn_Name newTable))
   \<and> (Parse P q = Inr [RenameTableStmt oldTable newTable, UseStmt db] \<longrightarrow>
      parserSchemaTableFromDDL P q = Inr (db, tn_Name newTable))
   \<and> (\<forall>stmts s tbl. Parse P q = Inr stmts \<and> RenameTableStmt oldTable newTable \<in> set stmts
          \<and> parserSchemaTableFromDDL P q = Inr (s, tbl) \<longrightarrow>
        stmts = [RenameTableStmt oldTable newTable]
          \<or> (\<exists>db'. stmts = [UseStmt db', RenameTableStmt oldTable newTable])
          \<or> (\<exists>db'. stmts = [RenameTableStmt oldTable newTable, UseStmt db']))"
proof (intro conjI allI impI)
  show "parserSchemaTableFromDDL P q = Inr (tn_Schema newTable, tn_Name newTable)"
    if "Parse P q = Inr [RenameTableStmt oldTable newTable]"
    using that by (simp add: parserSchemaTableFromDDL_def setTable_def)
  show "parserSchemaTableFromDDL P q =
        Inr (if tn_Schema newTable \<noteq> [] then tn_Schema newTable else db, tn_Name newTable)"
    if "Parse P q = Inr [UseStmt db, RenameTableStmt oldTable newTable]"
    using that by (simp add: parserSchemaTableFromDDL_def setTable_def)
  show "parserSchemaTableFromDDL P q = Inr (db, tn_Name newTable)"
    if "Parse P q = Inr [RenameTableStmt oldTable newTable, UseStmt db]"
    using that by (simp add: parserSchemaTableFromDDL_def setTable_def)
  show "stmts = [RenameTableStmt oldTable newTable]
          \<or> (\<exists>db'. stmts = [UseStmt db', RenameTableStmt oldTable newTable])
          \<or> (\<exists>db'. stmts = [RenameTableStmt oldTable newTable, UseStmt db'])"
    if h: "Parse P q = Inr stmts \<and> RenameTableStmt oldTable newTable \<in> set stmts
          \<and> parserSchemaTableFromDDL P q = Inr (s, tbl)"
    for stmts s tbl
    using h resolve_Inr_shape[of P q stmts s tbl "RenameTableStmt oldTable newTable"] by blast
qed

theorem rename_new_table_and_use_witness:
  "parserSchemaTableFromDDL ex_deps ''RENAME TABLE old_db.old_t TO new_db.new_t'' =
     Inr (''new_db'', ''new_t'')
   \<and> parserSchemaTableFromDDL ex_deps ''RENAME TABLE old_db.old_t TO new_db.new_t; USE x'' =
       Inr (''x'', ''new_t'')"
proof -
  let ?o = "\<lparr>tn_Schema = ''old_db'', tn_Name = ''old_t''\<rparr>"
  let ?n = "\<lparr>tn_Schema = ''new_db'', tn_Name = ''new_t''\<rparr>"
  note a = rename_new_table_and_use
             [where P = ex_deps and q = "''RENAME TABLE old_db.old_t TO new_db.new_t''"
                and oldTable = ?o and newTable = ?n]
  note b = rename_new_table_and_use
             [where P = ex_deps and q = "''RENAME TABLE old_db.old_t TO new_db.new_t; USE x''"
                and oldTable = ?o and newTable = ?n and db = "''x''"]
  from a have 1: "parserSchemaTableFromDDL ex_deps ''RENAME TABLE old_db.old_t TO new_db.new_t'' =
     Inr (''new_db'', ''new_t'')"
    by (simp add: ex_parse_rename)
  from b have 2: "parserSchemaTableFromDDL ex_deps
      ''RENAME TABLE old_db.old_t TO new_db.new_t; USE x'' = Inr (''x'', ''new_t'')"
    by (simp add: ex_parse_rename_then_use)
  from b[THEN conjunct2, THEN conjunct2, THEN conjunct2, rule_format,
         of "[RenameTableStmt ?o ?n, UseStmt ''x'']" "''x''" "''new_t''"]
       ex_parse_rename_then_use 2
  have "[RenameTableStmt ?o ?n, UseStmt ''x''] = [RenameTableStmt ?o ?n]
      \<or> (\<exists>db'. [RenameTableStmt ?o ?n, UseStmt ''x''] = [UseStmt db', RenameTableStmt ?o ?n])
      \<or> (\<exists>db'. [RenameTableStmt ?o ?n, UseStmt ''x''] = [RenameTableStmt ?o ?n, UseStmt db'])"
    by simp
  with 1 2 show ?thesis by simp
qed

text \<open>
  C9, as the claim states it, fails when a \<^verbatim>\<open>USE\<close> follows the \<^verbatim>\<open>RENAME TABLE\<close>: the text
  resolves, and the schema is the database of the \<^verbatim>\<open>USE\<close>, not the qualifier \<^verbatim>\<open>new_db\<close>
  of the new table.
\<close>

theorem rename_trailing_use_counterexample:
  "Parse ex_deps ''RENAME TABLE old_db.old_t TO new_db.new_t; USE x'' =
     Inr [RenameTableStmt \<lparr>tn_Schema = ''old_db'', tn_Name = ''old_t''\<rparr>
                          \<lparr>tn_Schema = ''new_db'', tn_Name = ''new_t''\<rparr>,
          UseStmt ''x'']
   \<and> parserSchemaTableFromDDL ex_deps ''RENAME TABLE old_db.old_t TO new_db.new_t; USE x'' =
       Inr (''x'', ''new_t'')
   \<and> ''x'' \<noteq> tn_Schema \<lparr>tn_Schema = ''new_db'', tn_Name = ''new_t''\<rparr>"
  by (simp add: parserSchemaTableFromDDL_def ex_parse_rename_then_use setTable_def)

text \<open>
  C5. For a DDL record, a transaction that \<^verbatim>\<open>pbBinlogToTxn\<close> returns holds the schema and
  the table of the resolution and the schema is not empty. When the resolution fails,
  \<^verbatim>\<open>pbBinlogToTxn\<close> fails; when it yields the empty schema, \<^verbatim>\<open>pbBinlogToTxn\<close> returns
  the error \<^verbatim>\<open>can't parse database name from DDL ...\<close>.
\<close>

theorem ddl_schema_never_empty:
  assumes "bl_Tp binlog = BinlogType_DDL"
  shows "(\<forall>txn. pbBinlogToTxn P binlog = Inr txn \<longrightarrow>
            (\<exists>db tbl. parserSchemaTableFromDDL P (bl_DdlQuery binlog) = Inr (db, tbl)
               \<and> db \<noteq> []
               \<and> txn = \<lparr>txn_DDL = Some \<lparr>ddl_Database = db, ddl_Table = tbl,
                                          ddl_SQL = bl_DdlQuery binlog\<rparr>, txn_DMLs = []\<rparr>))
       \<and> (\<forall>f. parserSchemaTableFromDDL P (bl_DdlQuery binlog) = Inl f \<longrightarrow>
            (\<exists>f'. pbBinlogToTxn P binlog = Inl f'))
       \<and> (\<forall>tbl. parserSchemaTableFromDDL P (bl_DdlQuery binlog) = Inr ([], tbl) \<longrightarrow>
            pbBinlogToTxn P binlog =
              Inl (Returned (Errorf ''can't parse database name from DDL %s''
                               (ArgString (bl_DdlQuery binlog)))))"
  using assms
  by (auto simp: pbBinlogToTxn_def split: sum.splits failure.splits if_splits)

theorem ddl_schema_never_empty_witness:
  "pbBinlogToTxn ex_deps (ex_ddl ''USE db1; CREATE TABLE t (a int)'') =
     Inr \<lparr>txn_DDL = Some \<lparr>ddl_Database = ''db1'', ddl_Table = ''t'',
                           ddl_SQL = ''USE db1; CREATE TABLE t (a int)''\<rparr>, txn_DMLs = []\<rparr>
   \<and> (\<exists>f'. pbBinlogToTxn ex_deps (ex_ddl ''USE db1'') = Inl f')
   \<and> pbBinlogToTxn ex_deps (ex_ddl ''CREATE TABLE t (a int)'') =
       Inl (Returned (Errorf ''can't parse database name from DDL %s''
                        (ArgString ''CREATE TABLE t (a int)'')))"
proof -
  have ddl: "bl_Tp (ex_ddl q) = BinlogType_DDL" for q
    by (simp add: ex_ddl_def)
  have qry: "bl_DdlQuery (ex_ddl q) = q" for q
    by (simp add: ex_ddl_def)
  have ok: "\<exists>txn. pbBinlogToTxn ex_deps (ex_ddl ''USE db1; CREATE TABLE t (a int)'') = Inr txn"
    by (simp add: pbBinlogToTxn_def ddl qry ex_resolve_use_create)
  have "pbBinlogToTxn ex_deps (ex_ddl ''USE db1; CREATE TABLE t (a int)'') =
     Inr \<lparr>txn_DDL = Some \<lparr>ddl_Database = ''db1'', ddl_Table = ''t'',
                           ddl_SQL = ''USE db1; CREATE TABLE t (a int)''\<rparr>, txn_DMLs = []\<rparr>"
    using ddl_schema_never_empty [OF ddl, of ex_deps "''USE db1; CREATE TABLE t (a int)''"] ok
    by (auto simp: qry ex_resolve_use_create)
  moreover have "\<exists>f'. pbBinlogToTxn ex_deps (ex_ddl ''USE db1'') = Inl f'"
    using ddl_schema_never_empty [OF ddl, of ex_deps "''USE db1''"]
    by (simp add: qry ex_resolve_use)
  moreover have "pbBinlogToTxn ex_deps (ex_ddl ''CREATE TABLE t (a int)'') =
       Inl (Returned (Errorf ''can't parse database name from DDL %s''
                        (ArgString ''CREATE TABLE t (a int)'')))"
    using ddl_schema_never_empty [OF ddl, of ex_deps "''CREATE TABLE t (a int)''"]
    by (simp add: qry ex_resolve_create)
  ultimately show ?thesis by blast
qed

subsection \<open>The loops over a row\<close>

lemma genColsAndArgs_loop_append:
  "genColsAndArgs_loop P (r1 @ r2) cols args =
     (case genColsAndArgs_loop P r1 cols args of
        Inl f \<Rightarrow> Inl f
      | Inr (cols', args') \<Rightarrow> genColsAndArgs_loop P r2 cols' args')"
  by (induction r1 arbitrary: cols args) (auto split: sum.splits list.splits)

lemma genColsAndArgs_loop_ok:
  assumes "map (Unmarshal P) row = map Inr columns"
    and "map (\<lambda>c. DecodeOne P (col_Value c)) columns = map Inr decoded"
    and "\<forall>c \<in> set columns. col_Tp c \<noteq> []"
  shows "genColsAndArgs_loop P row cols args =
           Inr (cols @ map col_Name columns,
                args @ map (\<lambda>(c, d). GetValue P (formatValue P (snd d) (hd (col_Tp c))))
                         (zip columns decoded))"
  using assms
proof (induction row arbitrary: cols args columns decoded)
  case Nil
  then show ?case by simp
next
  case (Cons c row)
  from Cons.prems(1) obtain col columns' where
    cs: "columns = col # columns'" "Unmarshal P c = Inr col"
        "map (Unmarshal P) row = map Inr columns'"
    by (cases columns) auto
  from Cons.prems(2) cs(1) obtain d decoded' where
    ds: "decoded = d # decoded'" "DecodeOne P (col_Value col) = Inr d"
        "map (\<lambda>c. DecodeOne P (col_Value c)) columns' = map Inr decoded'"
    by (cases decoded) auto
  from Cons.prems(3) cs(1) obtain tp tps where tp: "col_Tp col = tp # tps"
    by (cases "col_Tp col") auto
  from Cons.prems(3) cs(1) have "\<forall>c \<in> set columns'. col_Tp c \<noteq> []" by simp
  from Cons.IH[OF cs(3) ds(3) this]
  show ?case using cs ds tp by (cases d) simp
qed

lemma genColsAndArgs_loop_no_Panic:
  "\<forall>c \<in> set row. \<forall>col. Unmarshal P c = Inr col \<longrightarrow> col_Tp col \<noteq> [] \<Longrightarrow>
   genColsAndArgs_loop P row cols args \<noteq> Inl Panic"
  by (induction row arbitrary: cols args) (auto split: sum.splits list.splits)

lemma updateValues_append:
  "updateValues P (r1 @ r2) vs os =
     (case updateValues P r1 vs os of
        Inl f \<Rightarrow> Inl f
      | Inr (vs', os') \<Rightarrow> updateValues P r2 vs' os')"
  by (induction r1 arbitrary: vs os) (auto split: sum.splits list.splits)


lemma updateValues_no_Panic:
  "\<forall>c \<in> set row. \<forall>col. Unmarshal P c = Inr col \<longrightarrow> col_Tp col \<noteq> [] \<Longrightarrow>
   updateValues P row vs os \<noteq> Inl Panic"
  by (induction row arbitrary: vs os) (auto split: sum.splits list.splits)

subsection \<open>Filling the map of values\<close>

lemma setValues_ok:
  "length args = length cols \<Longrightarrow>
   \<exists>m'. setValues cols args i m = Inr m' \<and> dom m' = dom m \<union> set (drop i cols)
     \<and> (\<forall>k. k \<notin> set (drop i cols) \<longrightarrow> m' k = m k)
     \<and> (\<forall>j. i \<le> j \<and> j < length cols
              \<and> (\<forall>j'. j < j' \<and> j' < length cols \<longrightarrow> cols ! j' \<noteq> cols ! j)
           \<longrightarrow> m' (cols ! j) = Some (args ! j))"
proof (induction cols args i m rule: setValues.induct)
  case (1 cols args i m)
  show ?case
  proof (cases "i < length cols")
    case False
    then show ?thesis by (auto simp add: setValues.simps)
  next
    case True
    have ia: "i < length args" using True 1(2) by simp
    from 1(1)[OF True ia 1(2)] obtain m' where
      m': "setValues cols args (Suc i) (m(cols ! i \<mapsto> args ! i)) = Inr m'"
      "dom m' = dom (m(cols ! i \<mapsto> args ! i)) \<union> set (drop (Suc i) cols)"
      "\<forall>k. k \<notin> set (drop (Suc i) cols) \<longrightarrow> m' k = (m(cols ! i \<mapsto> args ! i)) k"
      "\<forall>j. Suc i \<le> j \<and> j < length cols
            \<and> (\<forall>j'. j < j' \<and> j' < length cols \<longrightarrow> cols ! j' \<noteq> cols ! j)
           \<longrightarrow> m' (cols ! j) = Some (args ! j)"
      by blast
    have dr: "drop i cols = cols ! i # drop (Suc i) cols"
      using True by (simp add: Cons_nth_drop_Suc)
    have run: "setValues cols args i m = Inr m'"
      using True 1(2) m'(1) by (subst setValues.simps) simp
    have d: "dom m' = dom m \<union> set (drop i cols)"
      using m'(2) dr by auto
    have k: "\<forall>k. k \<notin> set (drop i cols) \<longrightarrow> m' k = m k"
      using m'(3) dr by auto
    have v: "m' (cols ! j) = Some (args ! j)"
      if j: "i \<le> j" "j < length cols"
            "\<forall>j'. j < j' \<and> j' < length cols \<longrightarrow> cols ! j' \<noteq> cols ! j" for j
    proof (cases "j = i")
      case False
      with j m'(4) show ?thesis by auto
    next
      case ji: True
      have "cols ! i \<notin> set (drop (Suc i) cols)"
      proof
        assume "cols ! i \<in> set (drop (Suc i) cols)"
        then obtain n where "n < length (drop (Suc i) cols)" "drop (Suc i) cols ! n = cols ! i"
          by (auto simp: in_set_conv_nth)
        then have "Suc i + n < length cols" "cols ! (Suc i + n) = cols ! i" by auto
        with j(3) ji show False by auto
      qed
      with m'(3) ji show ?thesis by simp
    qed
    from run d k v show ?thesis by blast
  qed
qed

subsection \<open>One event, and the loop over the events\<close>


lemma genColsAndArgs_loop_length:
  "genColsAndArgs_loop P row cols args = Inr (cols', args') \<Longrightarrow> length args = length cols \<Longrightarrow>
   length args' = length cols'"
  by (induction row arbitrary: cols args) (auto split: sum.splits list.splits)

lemma singleImage_Inr:
  "singleImage P tp event = Inr dml \<Longrightarrow>
   \<exists>cols args m. genColsAndArgs P (ev_Row event) = Inr (cols, args)
      \<and> setValues cols args 0 Map.empty = Inr m
      \<and> dml = \<lparr>dml_Database = ev_SchemaName event, dml_Table = ev_TableName event,
                dml_Tp = tp, dml_Values = Some m, dml_OldValues = None\<rparr>"
  by (auto simp: singleImage_def split: sum.splits failure.splits)

lemma setValues_total:
  assumes "length args = length cols"
  shows "\<exists>m'. setValues cols args i m = Inr m'"
  using setValues_ok[OF assms, of i m] by - (erule exE, erule conjE, rule exI, assumption)

lemma singleImage_no_Panic:
  assumes "\<forall>c \<in> set (ev_Row event). \<forall>col. Unmarshal P c = Inr col \<longrightarrow> col_Tp col \<noteq> []"
  shows "singleImage P tp event \<noteq> Inl Panic"
proof (cases "genColsAndArgs P (ev_Row event)")
  case (Inl f)
  have "f \<noteq> Panic"
    using genColsAndArgs_loop_no_Panic[OF assms, of "[]" "[]"] Inl
    by (simp add: genColsAndArgs_def)
  then obtain e where "f = Returned e" by (cases f) simp_all
  with Inl show ?thesis by (simp add: singleImage_def)
next
  case (Inr r)
  obtain cols args where r: "r = (cols, args)" by (cases r)
  have "length args = length cols"
    using genColsAndArgs_loop_length[of P "ev_Row event" "[]" "[]" cols args] Inr r
    by (simp add: genColsAndArgs_def)
  from setValues_total[OF this, of 0 Map.empty] obtain m where
    "setValues cols args 0 Map.empty = Inr m" ..
  with Inr r show ?thesis by (simp add: singleImage_def)
qed


lemma eventToDML_no_Panic:
  assumes "\<forall>c \<in> set (ev_Row event). \<forall>col. Unmarshal P c = Inr col \<longrightarrow> col_Tp col \<noteq> []"
  shows "eventToDML P event \<noteq> Inl Panic"
  using singleImage_no_Panic[OF assms] updateValues_no_Panic[OF assms, of Map.empty Map.empty]
  by (cases "ev_Tp event") (auto simp: eventToDML_def split: sum.splits)

lemma eventsToDMLs_append:
  "eventsToDMLs P (e1 @ e2) dmls =
     (case eventsToDMLs P e1 dmls of
        Inl f \<Rightarrow> Inl f
      | Inr dmls' \<Rightarrow> eventsToDMLs P e2 dmls')"
  by (induction e1 arbitrary: dmls) (auto split: sum.splits)

lemma eventsToDMLs_Inr:
  "eventsToDMLs P events dmls = Inr dmls' \<Longrightarrow>
   \<exists>ds. dmls' = dmls @ ds \<and> map (eventToDML P) events = map Inr ds"
proof (induction events arbitrary: dmls)
  case Nil
  then show ?case by simp
next
  case (Cons e events)
  from Cons.prems obtain d where d: "eventToDML P e = Inr d"
    and rest: "eventsToDMLs P events (dmls @ [d]) = Inr dmls'"
    by (auto split: sum.splits)
  from Cons.IH[OF rest] obtain ds where "dmls' = (dmls @ [d]) @ ds"
    "map (eventToDML P) events = map Inr ds" by blast
  then show ?case using d by (intro exI[of _ "d # ds"]) simp
qed

lemma eventsToDMLs_no_Panic:
  "\<forall>e \<in> set events. \<forall>c \<in> set (ev_Row e). \<forall>col. Unmarshal P c = Inr col \<longrightarrow> col_Tp col \<noteq> [] \<Longrightarrow>
   eventsToDMLs P events dmls \<noteq> Inl Panic"
proof (induction events arbitrary: dmls)
  case Nil
  then show ?case by simp
next
  case (Cons e events)
  then have "eventToDML P e \<noteq> Inl Panic" by (intro eventToDML_no_Panic) simp
  with Cons show ?case by (auto split: sum.splits)
qed

lemma pbBinlogToTxn_DML:
  "bl_Tp binlog = BinlogType_DML \<Longrightarrow>
   pbBinlogToTxn P binlog =
     (case eventsToDMLs P (GetEvents (bl_DmlData binlog)) [] of
        Inl f \<Rightarrow> Inl f
      | Inr dmls \<Rightarrow> Inr \<lparr>txn_DDL = None, txn_DMLs = dmls\<rparr>)"
  by (simp add: pbBinlogToTxn_def)

lemma pbBinlogToTxn_DML_Inr:
  assumes "bl_Tp binlog = BinlogType_DML" and "pbBinlogToTxn P binlog = Inr txn"
  shows "txn_DDL txn = None
     \<and> map (eventToDML P) (GetEvents (bl_DmlData binlog)) = map Inr (txn_DMLs txn)"
proof -
  from assms obtain dmls where
    d: "eventsToDMLs P (GetEvents (bl_DmlData binlog)) [] = Inr dmls"
    and t: "txn = \<lparr>txn_DDL = None, txn_DMLs = dmls\<rparr>"
    by (auto simp: pbBinlogToTxn_DML split: sum.splits)
  from eventsToDMLs_Inr[OF d] t show ?thesis by auto
qed

lemma eventToDML_fields:
  assumes "eventToDML P event = Inr dml"
  shows "dml_Database dml = ev_SchemaName event \<and> dml_Table dml = ev_TableName event
     \<and> (ev_Tp event = EventType_Insert \<and> dml_Tp dml = InsertDMLType
        \<or> ev_Tp event = EventType_Update \<and> dml_Tp dml = UpdateDMLType
        \<or> ev_Tp event = EventType_Delete \<and> dml_Tp dml = DeleteDMLType)"
proof (cases "ev_Tp event")
  case EventType_Insert
  with assms singleImage_Inr[of P InsertDMLType event dml] show ?thesis
    by (auto simp: eventToDML_def)
next
  case EventType_Update
  with assms show ?thesis
    by (auto simp: eventToDML_def split: sum.splits)
next
  case EventType_Delete
  with assms singleImage_Inr[of P DeleteDMLType event dml] show ?thesis
    by (auto simp: eventToDML_def)
next
  case (EventType_Other n)
  with assms show ?thesis by (simp add: eventToDML_def)
qed

lemma map_Inr_nth:
  assumes "map f xs = map Inr ys"
  shows "length ys = length xs \<and> (\<forall>i < length xs. f (xs ! i) = Inr (ys ! i))"
proof -
  have l: "length ys = length xs" using assms by (metis length_map)
  have "f (xs ! i) = Inr (ys ! i)" if "i < length xs" for i
  proof -
    have "map f xs ! i = map Inr ys ! i" using assms by simp
    with that l show ?thesis by simp
  qed
  with l show ?thesis by simp
qed

lemma genColsAndArgs_loop_total:
  "\<forall>c \<in> set row. \<exists>col x. Unmarshal P c = Inr col \<and> DecodeOne P (col_Value col) = Inr x
      \<and> col_Tp col \<noteq> [] \<Longrightarrow>
   \<exists>r. genColsAndArgs_loop P row cols args = Inr r"
proof (induction row arbitrary: cols args)
  case Nil
  then show ?case by simp
next
  case (Cons c row)
  from Cons.prems obtain col x where
    c: "Unmarshal P c = Inr col" "DecodeOne P (col_Value col) = Inr x" "col_Tp col \<noteq> []"
    by auto
  obtain remain val where x: "x = (remain, val)" by (cases x)
  obtain tp tps where tp: "col_Tp col = tp # tps" using c(3) by (cases "col_Tp col") auto
  from Cons.prems have "\<forall>c \<in> set row. \<exists>col x. Unmarshal P c = Inr col
      \<and> DecodeOne P (col_Value col) = Inr x \<and> col_Tp col \<noteq> []" by simp
  from Cons.IH[OF this] c x tp show ?case by simp
qed

lemma updateValues_total:
  "\<forall>c \<in> set row. \<exists>col x y. Unmarshal P c = Inr col \<and> DecodeOne P (col_Value col) = Inr x
      \<and> DecodeOne P (col_ChangedValue col) = Inr y \<and> col_Tp col \<noteq> [] \<Longrightarrow>
   \<exists>r. updateValues P row vs os = Inr r"
proof (induction row arbitrary: vs os)
  case Nil
  then show ?case by simp
next
  case (Cons c row)
  from Cons.prems obtain col x y where
    c: "Unmarshal P c = Inr col" "DecodeOne P (col_Value col) = Inr x"
       "DecodeOne P (col_ChangedValue col) = Inr y" "col_Tp col \<noteq> []"
    by auto
  obtain r1 v1 where x: "x = (r1, v1)" by (cases x)
  obtain r2 v2 where y: "y = (r2, v2)" by (cases y)
  obtain tp tps where tp: "col_Tp col = tp # tps" using c(4) by (cases "col_Tp col") auto
  from Cons.prems have "\<forall>c \<in> set row. \<exists>col x y. Unmarshal P c = Inr col
      \<and> DecodeOne P (col_Value col) = Inr x
      \<and> DecodeOne P (col_ChangedValue col) = Inr y \<and> col_Tp col \<noteq> []" by simp
  from Cons.IH[OF this] c x y tp show ?case by simp
qed

lemma eventsToDMLs_total:
  "\<forall>e \<in> set events. \<exists>d. eventToDML P e = Inr d \<Longrightarrow>
   \<exists>ds. eventsToDMLs P events dmls = Inr ds"
proof (induction events arbitrary: dmls)
  case Nil
  then show ?case by simp
next
  case (Cons e events)
  from Cons.prems obtain d where d: "eventToDML P e = Inr d" by auto
  from Cons.prems have "\<forall>e \<in> set events. \<exists>d. eventToDML P e = Inr d" by simp
  from Cons.IH[OF this] d show ?case by simp
qed

text \<open>The first event that fails decides the failure of the record.\<close>

lemma first_failing_event:
  assumes "bl_Tp binlog = BinlogType_DML"
    and "GetEvents (bl_DmlData binlog) = evs1 @ event # evs2"
    and "\<forall>e \<in> set evs1. \<exists>d. eventToDML P e = Inr d"
    and "eventToDML P event = Inl f"
  shows "pbBinlogToTxn P binlog = Inl f"
proof -
  from eventsToDMLs_total[OF assms(3), of "[]"] obtain ds where
    "eventsToDMLs P evs1 [] = Inr ds" ..
  with assms(1,2,4) show ?thesis
    by (simp add: pbBinlogToTxn_DML eventsToDMLs_append)
qed

text \<open>The first column that fails decides the failure of an Insert or a Delete event.\<close>

lemma genColsAndArgs_first_failing:
  assumes "row = r1 @ c # r2"
    and "\<forall>c' \<in> set r1. \<exists>col' x. Unmarshal P c' = Inr col' \<and> DecodeOne P (col_Value col') = Inr x
           \<and> col_Tp col' \<noteq> []"
    and "Unmarshal P c = Inr col"
  shows "DecodeOne P (col_Value col) = Inl err \<Longrightarrow>
           genColsAndArgs P row = Inl (Returned (Trace err))"
    and "DecodeOne P (col_Value col) = Inr x \<Longrightarrow> col_Tp col = [] \<Longrightarrow>
           genColsAndArgs P row = Inl Panic"
proof -
  from genColsAndArgs_loop_total[OF assms(2), of "[]" "[]"] obtain r where
    r: "genColsAndArgs_loop P r1 [] [] = Inr r" ..
  obtain cols args where "r = (cols, args)" by (cases r)
  with r have run: "genColsAndArgs P row =
      genColsAndArgs_loop P (c # r2) cols args"
    by (simp add: genColsAndArgs_def assms(1) genColsAndArgs_loop_append)
  show "DecodeOne P (col_Value col) = Inl err \<Longrightarrow>
           genColsAndArgs P row = Inl (Returned (Trace err))"
    using run assms(3) by simp
  show "DecodeOne P (col_Value col) = Inr x \<Longrightarrow> col_Tp col = [] \<Longrightarrow>
           genColsAndArgs P row = Inl Panic"
    using run assms(3) by (cases x) simp
qed

lemma updateValues_first_failing:
  assumes "row = r1 @ c # r2"
    and "\<forall>c' \<in> set r1. \<exists>col' x y. Unmarshal P c' = Inr col'
           \<and> DecodeOne P (col_Value col') = Inr x
           \<and> DecodeOne P (col_ChangedValue col') = Inr y \<and> col_Tp col' \<noteq> []"
    and "Unmarshal P c = Inr col"
  shows "DecodeOne P (col_Value col) = Inl err \<Longrightarrow>
           updateValues P row Map.empty Map.empty = Inl (Returned (Trace err))"
    and "DecodeOne P (col_Value col) = Inr x \<Longrightarrow> DecodeOne P (col_ChangedValue col) = Inl err \<Longrightarrow>
           updateValues P row Map.empty Map.empty = Inl (Returned (Trace err))"
    and "DecodeOne P (col_Value col) = Inr x \<Longrightarrow> DecodeOne P (col_ChangedValue col) = Inr y \<Longrightarrow>
         col_Tp col = [] \<Longrightarrow>
           updateValues P row Map.empty Map.empty = Inl Panic"
proof -
  from updateValues_total[OF assms(2), of Map.empty Map.empty] obtain r where
    r: "updateValues P r1 Map.empty Map.empty = Inr r" ..
  obtain vs os where "r = (vs, os)" by (cases r)
  with r have run: "updateValues P row Map.empty Map.empty = updateValues P (c # r2) vs os"
    by (simp add: assms(1) updateValues_append)
  show "DecodeOne P (col_Value col) = Inl err \<Longrightarrow>
           updateValues P row Map.empty Map.empty = Inl (Returned (Trace err))"
    using run assms(3) by simp
  show "DecodeOne P (col_Value col) = Inr x \<Longrightarrow> DecodeOne P (col_ChangedValue col) = Inl err \<Longrightarrow>
           updateValues P row Map.empty Map.empty = Inl (Returned (Trace err))"
    using run assms(3) by (cases x) simp
  show "DecodeOne P (col_Value col) = Inr x \<Longrightarrow> DecodeOne P (col_ChangedValue col) = Inr y \<Longrightarrow>
         col_Tp col = [] \<Longrightarrow>
           updateValues P row Map.empty Map.empty = Inl Panic"
    using run assms(3) by (cases x; cases y) simp
qed

text \<open>Runs on the stand-ins.\<close>

lemmas ex_defs = ex_deps_def ex_Unmarshal_def ex_DecodeOne_def ex_event_def ex_dml_def

lemma ex_insert_event:
  "eventToDML ex_deps (ex_event EventType_Insert [[1], [5]]) = Inr ex_insert_dml"
  by (simp add: eventToDML_def singleImage_def genColsAndArgs_def setValues.simps ex_defs
        ex_insert_dml_def)

lemma ex_update_event:
  "eventToDML ex_deps (ex_event EventType_Update [[1], [5]]) = Inr ex_update_dml"
  by (simp add: eventToDML_def ex_defs ex_update_dml_def)

lemma ex_two_events:
  "pbBinlogToTxn ex_deps
     (ex_dml [ex_event EventType_Update [[1], [5]], ex_event EventType_Insert [[1], [5]]]) =
   Inr \<lparr>txn_DDL = None, txn_DMLs = [ex_update_dml, ex_insert_dml]\<rparr>"
  by (simp add: pbBinlogToTxn_def GetEvents_def ex_dml_def ex_insert_event ex_update_event)






lemma updateValues_keys:
  "updateValues P row vs os = Inr (vs', os') \<Longrightarrow>
   \<exists>columns. map (Unmarshal P) row = map Inr columns
     \<and> dom vs' = dom vs \<union> set (map col_Name columns)
     \<and> dom os' = dom os \<union> set (map col_Name columns)"
proof (induction row arbitrary: vs os)
  case Nil
  then show ?case by simp
next
  case (Cons c row)
  from Cons.prems obtain col :: Column and oldv newv where
    c: "Unmarshal P c = Inr col"
    and rest: "updateValues P row (vs(col_Name col \<mapsto> newv)) (os(col_Name col \<mapsto> oldv))
                 = Inr (vs', os')"
    by (auto split: sum.splits list.splits)
  from Cons.IH[OF rest] obtain columns where
    ih: "map (Unmarshal P) row = map Inr columns"
        "dom vs' = dom (vs(col_Name col \<mapsto> newv)) \<union> set (map col_Name columns)"
        "dom os' = dom (os(col_Name col \<mapsto> oldv)) \<union> set (map col_Name columns)"
    by blast
  from c ih show ?case by (intro exI[of _ "col # columns"]) auto
qed

lemma genColsAndArgs_loop_names:
  "genColsAndArgs_loop P row cols args = Inr (cols', args') \<Longrightarrow>
   \<exists>columns. map (Unmarshal P) row = map Inr columns \<and> cols' = cols @ map col_Name columns"
proof (induction row arbitrary: cols args)
  case Nil
  then show ?case by simp
next
  case (Cons c row)
  from Cons.prems obtain col :: Column and v where
    c: "Unmarshal P c = Inr col"
    and rest: "genColsAndArgs_loop P row (cols @ [col_Name col]) (args @ [v]) = Inr (cols', args')"
    by (auto split: sum.splits list.splits)
  from Cons.IH[OF rest] obtain columns where
    "map (Unmarshal P) row = map Inr columns" "cols' = (cols @ [col_Name col]) @ map col_Name columns"
    by blast
  with c show ?case by (intro exI[of _ "col # columns"]) simp
qed

lemma singleImage_keys:
  assumes "singleImage P tp event = Inr dml"
  shows "\<exists>columns m. map (Unmarshal P) (ev_Row event) = map Inr columns
     \<and> dml_Tp dml = tp \<and> dml_Values dml = Some m \<and> dom m = set (map col_Name columns)
     \<and> dml_OldValues dml = None"
proof -
  from singleImage_Inr[OF assms] obtain cols args m where
    g: "genColsAndArgs P (ev_Row event) = Inr (cols, args)"
    and sv: "setValues cols args 0 Map.empty = Inr m"
    and d: "dml = \<lparr>dml_Database = ev_SchemaName event, dml_Table = ev_TableName event,
                dml_Tp = tp, dml_Values = Some m, dml_OldValues = None\<rparr>"
    by blast
  from g have loop: "genColsAndArgs_loop P (ev_Row event) [] [] = Inr (cols, args)"
    by (simp add: genColsAndArgs_def)
  from genColsAndArgs_loop_names[OF loop] obtain columns where
    u: "map (Unmarshal P) (ev_Row event) = map Inr columns" and cols: "cols = map col_Name columns"
    by auto
  from genColsAndArgs_loop_length[OF loop] have la: "length args = length cols" by simp
  from setValues_ok[OF la, of 0 Map.empty] sv have "dom m = set cols" by auto
  with u cols d show ?thesis by (intro exI[of _ columns] exI[of _ m]) simp
qed

lemma eventToDML_keys:
  assumes "eventToDML P event = Inr dml"
  shows "\<exists>columns. map (Unmarshal P) (ev_Row event) = map Inr columns
       \<and> (dml_Tp dml = UpdateDMLType \<longrightarrow>
            (\<exists>vs os. dml_Values dml = Some vs \<and> dml_OldValues dml = Some os
               \<and> dom vs = set (map col_Name columns) \<and> dom os = dom vs))
       \<and> (dml_Tp dml = InsertDMLType \<or> dml_Tp dml = DeleteDMLType \<longrightarrow>
            (\<exists>m. dml_Values dml = Some m \<and> dom m = set (map col_Name columns))
            \<and> dml_OldValues dml = None)"
proof (cases "ev_Tp event")
  case EventType_Insert
  with assms have "singleImage P InsertDMLType event = Inr dml" by (simp add: eventToDML_def)
  from singleImage_keys[OF this] show ?thesis by auto
next
  case EventType_Delete
  with assms have "singleImage P DeleteDMLType event = Inr dml" by (simp add: eventToDML_def)
  from singleImage_keys[OF this] show ?thesis by auto
next
  case EventType_Update
  with assms obtain vs os where
    u: "updateValues P (ev_Row event) Map.empty Map.empty = Inr (vs, os)"
    and d: "dml = \<lparr>dml_Database = ev_SchemaName event, dml_Table = ev_TableName event,
                   dml_Tp = UpdateDMLType, dml_Values = Some vs, dml_OldValues = Some os\<rparr>"
    by (auto simp: eventToDML_def split: sum.splits)
  from updateValues_keys[OF u] obtain columns where
    "map (Unmarshal P) (ev_Row event) = map Inr columns"
    "dom vs = set (map col_Name columns)" "dom os = set (map col_Name columns)"
    by auto
  with d show ?thesis by (intro exI[of _ columns]) simp
next
  case (EventType_Other n)
  with assms show ?thesis by (simp add: eventToDML_def)
qed

subsection \<open>The DML batch\<close>




text \<open>
  C7. When a DML record translates, the transaction has one \<^verbatim>\<open>loader.DML\<close> for each
  event, in the order of the events: the \<open>i\<close>-th one is the translation of the \<open>i\<close>-th
  event and carries its schema name and its table name.
\<close>

theorem order_preserved:
  assumes "bl_Tp binlog = BinlogType_DML" and "pbBinlogToTxn P binlog = Inr txn"
  shows "length (txn_DMLs txn) = length (GetEvents (bl_DmlData binlog))
       \<and> (\<forall>i < length (GetEvents (bl_DmlData binlog)).
            eventToDML P (GetEvents (bl_DmlData binlog) ! i) = Inr (txn_DMLs txn ! i)
          \<and> dml_Database (txn_DMLs txn ! i) = ev_SchemaName (GetEvents (bl_DmlData binlog) ! i)
          \<and> dml_Table (txn_DMLs txn ! i) = ev_TableName (GetEvents (bl_DmlData binlog) ! i))"
proof -
  from pbBinlogToTxn_DML_Inr[OF assms]
  have m: "map (eventToDML P) (GetEvents (bl_DmlData binlog)) = map Inr (txn_DMLs txn)" by simp
  from map_Inr_nth[OF m] eventToDML_fields show ?thesis by fastforce
qed

theorem order_preserved_witness:
  "eventToDML ex_deps (ex_event EventType_Update [[1], [5]]) = Inr ex_update_dml
   \<and> dml_Table ex_update_dml = ''orders''
   \<and> eventToDML ex_deps (ex_event EventType_Insert [[1], [5]]) = Inr ex_insert_dml"
proof -
  let ?b = "ex_dml [ex_event EventType_Update [[1], [5]], ex_event EventType_Insert [[1], [5]]]"
  have h1: "bl_Tp ?b = BinlogType_DML" by (simp add: ex_dml_def)
  have ev: "GetEvents (bl_DmlData ?b) =
              [ex_event EventType_Update [[1], [5]], ex_event EventType_Insert [[1], [5]]]"
    by (simp add: ex_dml_def GetEvents_def)
  have two: "(\<forall>i<Suc (Suc 0). Q i) = (Q 0 \<and> Q (Suc 0))" for Q :: "nat \<Rightarrow> bool"
    by (auto simp: less_Suc_eq)
  note r = order_preserved [OF h1 ex_two_events, unfolded ev]
  from r have "eventToDML ex_deps (ex_event EventType_Update [[1], [5]]) = Inr ex_update_dml"
    by (simp add: two)
  moreover from r have "dml_Table ex_update_dml = ev_TableName (ex_event EventType_Update [[1], [5]])"
    by (simp add: two)
  moreover from r have "eventToDML ex_deps (ex_event EventType_Insert [[1], [5]]) = Inr ex_insert_dml"
    by (simp add: two)
  ultimately show ?thesis by (simp add: ex_event_def)
qed

text \<open>
  C6. In a transaction that \<^verbatim>\<open>pbBinlogToTxn\<close> returns, the row of the \<open>i\<close>-th event
  unmarshals to columns, and the \<open>i\<close>-th \<^verbatim>\<open>loader.DML\<close> is filled from them: an Update
  has both maps made, each with the names of the columns as its keys; an Insert or a
  Delete has the map of values made, with the names of the columns as its keys, and the
  map of old values nil.
\<close>

theorem update_maps_share_keys:
  assumes "pbBinlogToTxn P binlog = Inr txn" and "i < length (txn_DMLs txn)"
  shows "\<exists>columns.
           map (Unmarshal P) (ev_Row (GetEvents (bl_DmlData binlog) ! i)) = map Inr columns
         \<and> (dml_Tp (txn_DMLs txn ! i) = UpdateDMLType \<longrightarrow>
              (\<exists>vs os. dml_Values (txn_DMLs txn ! i) = Some vs
                 \<and> dml_OldValues (txn_DMLs txn ! i) = Some os
                 \<and> dom vs = set (map col_Name columns) \<and> dom os = dom vs))
         \<and> (dml_Tp (txn_DMLs txn ! i) = InsertDMLType
              \<or> dml_Tp (txn_DMLs txn ! i) = DeleteDMLType \<longrightarrow>
              (\<exists>m. dml_Values (txn_DMLs txn ! i) = Some m
                 \<and> dom m = set (map col_Name columns))
              \<and> dml_OldValues (txn_DMLs txn ! i) = None)"
proof (cases "bl_Tp binlog")
  case BinlogType_DML
  from pbBinlogToTxn_DML_Inr[OF this assms(1)]
  have m: "map (eventToDML P) (GetEvents (bl_DmlData binlog)) = map Inr (txn_DMLs txn)" by simp
  with map_Inr_nth[OF m] assms(2)
  have "eventToDML P (GetEvents (bl_DmlData binlog) ! i) = Inr (txn_DMLs txn ! i)" by simp
  from eventToDML_keys[OF this] show ?thesis .
next
  case BinlogType_DDL
  with assms show ?thesis
    by (auto simp: pbBinlogToTxn_def split: sum.splits failure.splits if_splits)
next
  case (BinlogType_Other n)
  with assms show ?thesis by (simp add: pbBinlogToTxn_def)
qed

theorem update_maps_share_keys_witness:
  "(\<exists>vs os. dml_Values ex_update_dml = Some vs \<and> dml_OldValues ex_update_dml = Some os
      \<and> dom vs = {''id'', ''qty''} \<and> dom os = dom vs)
   \<and> (\<exists>m. dml_Values ex_insert_dml = Some m \<and> dom m = {''id'', ''qty''})
   \<and> dml_OldValues ex_insert_dml = None"
proof -
  let ?b = "ex_dml [ex_event EventType_Update [[1], [5]], ex_event EventType_Insert [[1], [5]]]"
  let ?t = "\<lparr>txn_DDL = None, txn_DMLs = [ex_update_dml, ex_insert_dml]\<rparr>"
  let ?c1 = "\<lparr>col_Name = ''id'', col_Tp = [3], col_MysqlType = ''int'',
              col_Value = [7], col_ChangedValue = [9]\<rparr>"
  let ?c5 = "\<lparr>col_Name = ''qty'', col_Tp = [3], col_MysqlType = ''int'',
              col_Value = [4], col_ChangedValue = [4]\<rparr>"
  have ev: "GetEvents (bl_DmlData ?b) =
              [ex_event EventType_Update [[1], [5]], ex_event EventType_Insert [[1], [5]]]"
    by (simp add: ex_dml_def GetEvents_def)
  have i0: "0 < length (txn_DMLs ?t)" and i1: "1 < length (txn_DMLs ?t)" by simp_all
  have rows: "map (Unmarshal ex_deps) [[1], [5]] = map Inr [?c1, ?c5]"
    by (simp add: ex_defs)
  have tu: "dml_Tp ex_update_dml = UpdateDMLType" by (simp add: ex_update_dml_def)
  have ti: "dml_Tp ex_insert_dml = InsertDMLType" by (simp add: ex_insert_dml_def)
  from update_maps_share_keys [OF ex_two_events i0, unfolded ev] obtain columns where
    a: "map (Unmarshal ex_deps) (ev_Row (ex_event EventType_Update [[1], [5]])) = map Inr columns"
       "\<exists>vs os. dml_Values ex_update_dml = Some vs \<and> dml_OldValues ex_update_dml = Some os
          \<and> dom vs = set (map col_Name columns) \<and> dom os = dom vs"
    using tu by auto
  from a(1) rows have "map Inr columns = (map Inr [?c1, ?c5] :: (error + Column) list)"
    by (simp add: ex_event_def)
  then have "columns = [?c1, ?c5]" by (rule map_injective) simp
  with a(2) have u: "\<exists>vs os. dml_Values ex_update_dml = Some vs
      \<and> dml_OldValues ex_update_dml = Some os \<and> dom vs = {''id'', ''qty''} \<and> dom os = dom vs"
    by simp
  from update_maps_share_keys [OF ex_two_events i1, unfolded ev] obtain columns' where
    b: "map (Unmarshal ex_deps) (ev_Row (ex_event EventType_Insert [[1], [5]])) = map Inr columns'"
       "(\<exists>m. dml_Values ex_insert_dml = Some m \<and> dom m = set (map col_Name columns'))
          \<and> dml_OldValues ex_insert_dml = None"
    using ti by auto
  from b(1) rows have "map Inr columns' = (map Inr [?c1, ?c5] :: (error + Column) list)"
    by (simp add: ex_event_def)
  then have "columns' = [?c1, ?c5]" by (rule map_injective) simp
  with b(2) have "(\<exists>m. dml_Values ex_insert_dml = Some m \<and> dom m = {''id'', ''qty''})
          \<and> dml_OldValues ex_insert_dml = None"
    by simp
  with u show ?thesis by simp
qed

text \<open>
  C10. For a DML record: when every column that unmarshals has a type descriptor that
  is not empty, the translation does not panic. When the events before \<open>event\<close>
  translate, the columns of \<open>event\<close> before \<open>c\<close> translate, and \<open>c\<close> unmarshals to a column
  with an empty type descriptor whose payloads decode, \<^verbatim>\<open>col.Tp[0]\<close> is out of range and
  the translation panics; it returns no error.
\<close>

theorem empty_type_descriptor_panics:
  assumes "bl_Tp binlog = BinlogType_DML"
  shows "((\<forall>e \<in> set (GetEvents (bl_DmlData binlog)). \<forall>c \<in> set (ev_Row e). \<forall>col.
             Unmarshal P c = Inr col \<longrightarrow> col_Tp col \<noteq> []) \<longrightarrow>
          pbBinlogToTxn P binlog \<noteq> Inl Panic)
       \<and> (GetEvents (bl_DmlData binlog) = evs1 @ event # evs2
          \<and> (\<forall>e \<in> set evs1. \<exists>d. eventToDML P e = Inr d)
          \<and> (\<forall>n. ev_Tp event \<noteq> EventType_Other n)
          \<and> ev_Row event = r1 @ c # r2
          \<and> (\<forall>c' \<in> set r1. \<exists>col' x. Unmarshal P c' = Inr col'
                \<and> DecodeOne P (col_Value col') = Inr x \<and> col_Tp col' \<noteq> []
                \<and> (ev_Tp event = EventType_Update \<longrightarrow>
                     (\<exists>y. DecodeOne P (col_ChangedValue col') = Inr y)))
          \<and> Unmarshal P c = Inr col \<and> col_Tp col = []
          \<and> (\<exists>x. DecodeOne P (col_Value col) = Inr x)
          \<and> (ev_Tp event = EventType_Update \<longrightarrow>
                (\<exists>y. DecodeOne P (col_ChangedValue col) = Inr y))
          \<longrightarrow> pbBinlogToTxn P binlog = Inl Panic)"
proof (intro conjI impI)
  assume "\<forall>e \<in> set (GetEvents (bl_DmlData binlog)). \<forall>c \<in> set (ev_Row e). \<forall>col.
             Unmarshal P c = Inr col \<longrightarrow> col_Tp col \<noteq> []"
  from eventsToDMLs_no_Panic[OF this, of "[]"] assms
  show "pbBinlogToTxn P binlog \<noteq> Inl Panic"
    by (auto simp: pbBinlogToTxn_DML split: sum.splits)
next
  assume h: "GetEvents (bl_DmlData binlog) = evs1 @ event # evs2
          \<and> (\<forall>e \<in> set evs1. \<exists>d. eventToDML P e = Inr d)
          \<and> (\<forall>n. ev_Tp event \<noteq> EventType_Other n)
          \<and> ev_Row event = r1 @ c # r2
          \<and> (\<forall>c' \<in> set r1. \<exists>col' x. Unmarshal P c' = Inr col'
                \<and> DecodeOne P (col_Value col') = Inr x \<and> col_Tp col' \<noteq> []
                \<and> (ev_Tp event = EventType_Update \<longrightarrow>
                     (\<exists>y. DecodeOne P (col_ChangedValue col') = Inr y)))
          \<and> Unmarshal P c = Inr col \<and> col_Tp col = []
          \<and> (\<exists>x. DecodeOne P (col_Value col) = Inr x)
          \<and> (ev_Tp event = EventType_Update \<longrightarrow>
                (\<exists>y. DecodeOne P (col_ChangedValue col) = Inr y))"
  then obtain x where x: "DecodeOne P (col_Value col) = Inr x" by blast
  from h have row: "ev_Row event = r1 @ c # r2" and un: "Unmarshal P c = Inr col"
    and tp: "col_Tp col = []" by simp_all
  from h have single: "\<forall>c' \<in> set r1. \<exists>col' x. Unmarshal P c' = Inr col'
                \<and> DecodeOne P (col_Value col') = Inr x \<and> col_Tp col' \<noteq> []"
    by blast
  have "eventToDML P event = Inl Panic"
  proof (cases "ev_Tp event")
    case EventType_Insert
    from genColsAndArgs_first_failing(2)[OF row single un x tp] EventType_Insert
    show ?thesis by (simp add: eventToDML_def singleImage_def)
  next
    case EventType_Delete
    from genColsAndArgs_first_failing(2)[OF row single un x tp] EventType_Delete
    show ?thesis by (simp add: eventToDML_def singleImage_def)
  next
    case EventType_Update
    with h obtain y where y: "DecodeOne P (col_ChangedValue col) = Inr y" by blast
    from h EventType_Update have dual: "\<forall>c' \<in> set r1. \<exists>col' x y. Unmarshal P c' = Inr col'
           \<and> DecodeOne P (col_Value col') = Inr x
           \<and> DecodeOne P (col_ChangedValue col') = Inr y \<and> col_Tp col' \<noteq> []"
      by fastforce
    from updateValues_first_failing(3)[OF row dual un x y tp] EventType_Update
    show ?thesis by (simp add: eventToDML_def)
  next
    case (EventType_Other n)
    with h show ?thesis by simp
  qed
  with h assms show "pbBinlogToTxn P binlog = Inl Panic"
    by (intro first_failing_event[of binlog evs1 event evs2]) simp_all
qed

theorem empty_type_descriptor_panics_witness:
  "pbBinlogToTxn ex_deps
     (ex_dml [ex_event EventType_Update [[1], [5]], ex_event EventType_Insert [[1], [5]]])
     \<noteq> Inl Panic
   \<and> pbBinlogToTxn ex_deps
       (ex_dml [ex_event EventType_Insert [[1], [5]], ex_event EventType_Update [[1], [3], [5]]])
     = Inl Panic"
proof -
  let ?a = "ex_dml [ex_event EventType_Update [[1], [5]], ex_event EventType_Insert [[1], [5]]]"
  let ?e = "ex_event EventType_Update [[1], [3], [5]]"
  let ?b = "ex_dml [ex_event EventType_Insert [[1], [5]], ?e]"
  let ?col = "\<lparr>col_Name = ''name'', col_Tp = [], col_MysqlType = ''varchar'',
               col_Value = [1], col_ChangedValue = [2]\<rparr>"
  have a1: "bl_Tp ?a = BinlogType_DML" by (simp add: ex_dml_def)
  have a2: "\<forall>e \<in> set (GetEvents (bl_DmlData ?a)). \<forall>c \<in> set (ev_Row e). \<forall>col.
              Unmarshal ex_deps c = Inr col \<longrightarrow> col_Tp col \<noteq> []"
    by (auto simp add: ex_defs GetEvents_def)
  have b1: "bl_Tp ?b = BinlogType_DML" by (simp add: ex_dml_def)
  have b2: "GetEvents (bl_DmlData ?b) = [ex_event EventType_Insert [[1], [5]]] @ ?e # []"
    by (simp add: ex_dml_def GetEvents_def)
  have b3: "\<forall>e \<in> set [ex_event EventType_Insert [[1], [5]]]. \<exists>d. eventToDML ex_deps e = Inr d"
    by (simp add: ex_insert_event)
  have b4: "\<forall>n. ev_Tp ?e \<noteq> EventType_Other n" by (simp add: ex_event_def)
  have b5: "ev_Row ?e = [[1]] @ [3] # [[5]]" by (simp add: ex_event_def)
  have b6: "\<forall>c' \<in> set [[1]]. \<exists>col' x. Unmarshal ex_deps c' = Inr col'
                \<and> DecodeOne ex_deps (col_Value col') = Inr x \<and> col_Tp col' \<noteq> []
                \<and> (ev_Tp ?e = EventType_Update \<longrightarrow>
                     (\<exists>y. DecodeOne ex_deps (col_ChangedValue col') = Inr y))"
    by (simp add: ex_defs)
  have b7: "Unmarshal ex_deps [3] = Inr ?col \<and> col_Tp ?col = []"
    by (simp add: ex_defs)
  have b8: "\<exists>x. DecodeOne ex_deps (col_Value ?col) = Inr x" by (simp add: ex_defs)
  have b9: "ev_Tp ?e = EventType_Update \<longrightarrow>
                (\<exists>y. DecodeOne ex_deps (col_ChangedValue ?col) = Inr y)"
    by (simp add: ex_defs)
  from empty_type_descriptor_panics [OF a1, of ex_deps] a2
  have "pbBinlogToTxn ex_deps ?a \<noteq> Inl Panic" by blast
  moreover
  from empty_type_descriptor_panics
         [OF b1, of ex_deps "[ex_event EventType_Insert [[1], [5]]]" ?e "[]" "[[1]]" "[3]" "[[5]]" ?col]
       b2 b3 b4 b5 b6 b7 b8 b9
  have "pbBinlogToTxn ex_deps ?b = Inl Panic" by blast
  ultimately show ?thesis by simp
qed

subsection \<open>The error of a rejected payload\<close>

text \<open>
  C8, as the code has it. When the events before \<open>event\<close> translate, the columns of
  \<open>event\<close> before \<open>c\<close> translate, and the codec rejects a payload of the column \<open>c\<close> with
  the error \<open>err\<close>, \<^verbatim>\<open>pbBinlogToTxn\<close> returns \<open>err\<close> under \<^verbatim>\<open>errors.Trace\<close> (once for an
  Update, twice for an Insert or a Delete). The message is the message of \<open>err\<close>: the
  translation adds neither the name of the column nor its type.
\<close>

theorem codec_error_returned_as_is:
  assumes "bl_Tp binlog = BinlogType_DML"
    and "GetEvents (bl_DmlData binlog) = evs1 @ event # evs2"
    and "\<forall>e \<in> set evs1. \<exists>d. eventToDML P e = Inr d"
    and "\<forall>n. ev_Tp event \<noteq> EventType_Other n"
    and "ev_Row event = r1 @ c # r2"
    and "\<forall>c' \<in> set r1. \<exists>col' x. Unmarshal P c' = Inr col'
            \<and> DecodeOne P (col_Value col') = Inr x \<and> col_Tp col' \<noteq> []
            \<and> (ev_Tp event = EventType_Update \<longrightarrow>
                 (\<exists>y. DecodeOne P (col_ChangedValue col') = Inr y))"
    and "Unmarshal P c = Inr col"
    and "DecodeOne P (col_Value col) = Inl err
       \<or> ev_Tp event = EventType_Update \<and> (\<exists>x. DecodeOne P (col_Value col) = Inr x)
          \<and> DecodeOne P (col_ChangedValue col) = Inl err"
  shows "\<exists>e'. pbBinlogToTxn P binlog = Inl (Returned e')
           \<and> e' = (if ev_Tp event = EventType_Update then Trace err else Trace (Trace err))
           \<and> Error e' = Error err"
proof -
  from assms(6) have single: "\<forall>c' \<in> set r1. \<exists>col' x. Unmarshal P c' = Inr col'
                \<and> DecodeOne P (col_Value col') = Inr x \<and> col_Tp col' \<noteq> []"
    by blast
  have "eventToDML P event =
          Inl (Returned (if ev_Tp event = EventType_Update then Trace err else Trace (Trace err)))"
  proof (cases "ev_Tp event")
    case EventType_Insert
    with assms(8) have "DecodeOne P (col_Value col) = Inl err" by simp
    from genColsAndArgs_first_failing(1)[OF assms(5) single assms(7) this] EventType_Insert
    show ?thesis by (simp add: eventToDML_def singleImage_def)
  next
    case EventType_Delete
    with assms(8) have "DecodeOne P (col_Value col) = Inl err" by simp
    from genColsAndArgs_first_failing(1)[OF assms(5) single assms(7) this] EventType_Delete
    show ?thesis by (simp add: eventToDML_def singleImage_def)
  next
    case EventType_Update
    from assms(6) EventType_Update have dual: "\<forall>c' \<in> set r1. \<exists>col' x y. Unmarshal P c' = Inr col'
           \<and> DecodeOne P (col_Value col') = Inr x
           \<and> DecodeOne P (col_ChangedValue col') = Inr y \<and> col_Tp col' \<noteq> []"
      by fastforce
    from assms(8) have "updateValues P (ev_Row event) Map.empty Map.empty = Inl (Returned (Trace err))"
    proof
      assume "DecodeOne P (col_Value col) = Inl err"
      from updateValues_first_failing(1)[OF assms(5) dual assms(7) this] show ?thesis .
    next
      assume "ev_Tp event = EventType_Update \<and> (\<exists>x. DecodeOne P (col_Value col) = Inr x)
          \<and> DecodeOne P (col_ChangedValue col) = Inl err"
      then obtain x where "DecodeOne P (col_Value col) = Inr x"
        "DecodeOne P (col_ChangedValue col) = Inl err" by blast
      from updateValues_first_failing(2)[OF assms(5) dual assms(7) this] show ?thesis .
    qed
    with EventType_Update show ?thesis by (simp add: eventToDML_def)
  next
    case (EventType_Other n)
    with assms(4) show ?thesis by simp
  qed
  from first_failing_event[OF assms(1,2,3) this] show ?thesis by simp
qed

theorem codec_error_returned_as_is_witness:
  "pbBinlogToTxn ex_deps
     (ex_dml [ex_event EventType_Insert [[1], [5]], ex_event EventType_Insert [[1], [2]]])
   = Inl (Returned (Trace (Trace (External ''invalid encoded key''))))"
proof -
  let ?e = "ex_event EventType_Insert [[1], [2]]"
  let ?b = "ex_dml [ex_event EventType_Insert [[1], [5]], ?e]"
  let ?col = "\<lparr>col_Name = ''price'', col_Tp = [8], col_MysqlType = ''bigint'',
               col_Value = [], col_ChangedValue = [5]\<rparr>"
  have h1: "bl_Tp ?b = BinlogType_DML" by (simp add: ex_dml_def)
  have h2: "GetEvents (bl_DmlData ?b) = [ex_event EventType_Insert [[1], [5]]] @ ?e # []"
    by (simp add: ex_dml_def GetEvents_def)
  have h3: "\<forall>e \<in> set [ex_event EventType_Insert [[1], [5]]]. \<exists>d. eventToDML ex_deps e = Inr d"
    by (simp add: ex_insert_event)
  have h4: "\<forall>n. ev_Tp ?e \<noteq> EventType_Other n" by (simp add: ex_event_def)
  have h5: "ev_Row ?e = [[1]] @ [2] # []" by (simp add: ex_event_def)
  have h6: "\<forall>c' \<in> set [[1]]. \<exists>col' x. Unmarshal ex_deps c' = Inr col'
                \<and> DecodeOne ex_deps (col_Value col') = Inr x \<and> col_Tp col' \<noteq> []
                \<and> (ev_Tp ?e = EventType_Update \<longrightarrow>
                     (\<exists>y. DecodeOne ex_deps (col_ChangedValue col') = Inr y))"
    by (simp add: ex_defs)
  have h7: "Unmarshal ex_deps [2] = Inr ?col" by (simp add: ex_defs)
  have h8: "DecodeOne ex_deps (col_Value ?col) = Inl (External ''invalid encoded key'')
       \<or> ev_Tp ?e = EventType_Update \<and> (\<exists>x. DecodeOne ex_deps (col_Value ?col) = Inr x)
          \<and> DecodeOne ex_deps (col_ChangedValue ?col) = Inl (External ''invalid encoded key'')"
    by (simp add: ex_defs)
  have h9: "ev_Tp ?e \<noteq> EventType_Update" by (simp add: ex_event_def)
  from codec_error_returned_as_is [OF h1 h2 h3 h4 h5 h6 h7 h8] h9 show ?thesis by simp
qed

text \<open>
  C8, as the claim states it, fails: the column \<^verbatim>\<open>price\<close> of type \<^verbatim>\<open>bigint\<close> has a payload
  that the codec rejects, and the message of the error that \<^verbatim>\<open>pbBinlogToTxn\<close> returns
  contains neither \<^verbatim>\<open>price\<close> nor \<^verbatim>\<open>bigint\<close>.
\<close>

theorem codec_error_names_column_counterexample:
  "Unmarshal ex_deps [2] =
     Inr \<lparr>col_Name = ''price'', col_Tp = [8], col_MysqlType = ''bigint'',
          col_Value = [], col_ChangedValue = [5]\<rparr>
   \<and> DecodeOne ex_deps [] = Inl (External ''invalid encoded key'')
   \<and> pbBinlogToTxn ex_deps (ex_dml [ex_event EventType_Insert [[1], [2]]]) =
       Inl (Returned (Trace (Trace (External ''invalid encoded key''))))
   \<and> Error (Trace (Trace (External ''invalid encoded key''))) = ''invalid encoded key''
   \<and> \<not> sublist ''price'' (Error (Trace (Trace (External ''invalid encoded key''))))
   \<and> \<not> sublist ''bigint'' (Error (Trace (Trace (External ''invalid encoded key''))))"
proof (intro conjI)
  show "Unmarshal ex_deps [2] =
     Inr \<lparr>col_Name = ''price'', col_Tp = [8], col_MysqlType = ''bigint'',
          col_Value = [], col_ChangedValue = [5]\<rparr>"
    by (simp add: ex_defs)
  show "DecodeOne ex_deps [] = Inl (External ''invalid encoded key'')"
    by (simp add: ex_defs)
  show "pbBinlogToTxn ex_deps (ex_dml [ex_event EventType_Insert [[1], [2]]]) =
       Inl (Returned (Trace (Trace (External ''invalid encoded key''))))"
    by (simp add: pbBinlogToTxn_def GetEvents_def eventToDML_def singleImage_def
          genColsAndArgs_def ex_defs)
  show "Error (Trace (Trace (External ''invalid encoded key''))) = ''invalid encoded key''"
    by simp
  show "\<not> sublist ''price'' (Error (Trace (Trace (External ''invalid encoded key''))))"
    by code_simp
  show "\<not> sublist ''bigint'' (Error (Trace (Trace (External ''invalid encoded key''))))"
    by code_simp
qed

subsection \<open>The values of an Insert or a Delete\<close>

text \<open>
  C2, as the code has it. For an Insert or a Delete event whose row unmarshals to
  columns with pairwise distinct names, whose current payloads all decode, and whose
  type descriptors are not empty, the event translates to a \<^verbatim>\<open>loader.DML\<close> whose map
  of values has the names of the columns as its keys, as many keys as there are
  columns, and under the name of each column the value of the datum that
  \<^verbatim>\<open>codec.DecodeOne\<close> decodes from the column's payload, formatted by \<^verbatim>\<open>formatValue\<close>
  for the first byte of the column's type descriptor. That \<^verbatim>\<open>loader.DML\<close> stands at the
  place of the event in every transaction that \<^verbatim>\<open>pbBinlogToTxn\<close> returns for a record
  with this event.
\<close>

theorem insert_delete_values:
  assumes "ev_Tp event = EventType_Insert \<or> ev_Tp event = EventType_Delete"
    and "map (Unmarshal P) (ev_Row event) = map Inr columns"
    and "map (\<lambda>c. DecodeOne P (col_Value c)) columns = map Inr decoded"
    and "\<forall>c \<in> set columns. col_Tp c \<noteq> []"
    and "distinct (map col_Name columns)"
  shows "\<exists>dml m. eventToDML P event = Inr dml
           \<and> dml_Values dml = Some m \<and> dml_OldValues dml = None
           \<and> dom m = set (map col_Name columns)
           \<and> card (dom m) = length columns
           \<and> (\<forall>j < length columns. \<exists>tp tps. col_Tp (columns ! j) = tp # tps
                \<and> m (col_Name (columns ! j)) =
                    Some (GetValue P (formatValue P (snd (decoded ! j)) tp)))
           \<and> (\<forall>binlog txn i. bl_Tp binlog = BinlogType_DML
                \<and> pbBinlogToTxn P binlog = Inr txn
                \<and> i < length (GetEvents (bl_DmlData binlog))
                \<and> GetEvents (bl_DmlData binlog) ! i = event
                \<longrightarrow> txn_DMLs txn ! i = dml)"
proof -
  let ?cols = "map col_Name columns"
  let ?args = "map (\<lambda>(c, d). GetValue P (formatValue P (snd d) (hd (col_Tp c))))
                 (zip columns decoded)"
  from genColsAndArgs_loop_ok[OF assms(2,3,4), of "[]" "[]"]
  have g: "genColsAndArgs P (ev_Row event) = Inr (?cols, ?args)"
    by (simp add: genColsAndArgs_def)
  from map_Inr_nth[OF assms(3)] have ld: "length decoded = length columns" by simp
  then have la: "length ?args = length ?cols" by simp
  from setValues_ok[OF la, of 0 Map.empty] obtain m where
    sv: "setValues ?cols ?args 0 Map.empty = Inr m"
    and dm: "dom m = set ?cols"
    and look: "\<forall>j. j < length ?cols
                \<and> (\<forall>j'. j < j' \<and> j' < length ?cols \<longrightarrow> ?cols ! j' \<noteq> ?cols ! j)
                \<longrightarrow> m (?cols ! j) = Some (?args ! j)"
    by auto
  let ?dml = "\<lparr>dml_Database = ev_SchemaName event, dml_Table = ev_TableName event,
               dml_Tp = (if ev_Tp event = EventType_Insert then InsertDMLType else DeleteDMLType),
               dml_Values = Some m, dml_OldValues = None\<rparr>"
  have ev: "eventToDML P event = Inr ?dml"
    using assms(1) g sv by (auto simp: eventToDML_def singleImage_def)
  have d2: "card (dom m) = length columns"
    using dm distinct_card[OF assms(5)] by simp
  have d3: "\<exists>tp tps. col_Tp (columns ! j) = tp # tps
                \<and> m (col_Name (columns ! j)) =
                    Some (GetValue P (formatValue P (snd (decoded ! j)) tp))"
    if j: "j < length columns" for j
  proof -
    have nodup: "\<forall>j'. j < j' \<and> j' < length ?cols \<longrightarrow> ?cols ! j' \<noteq> ?cols ! j"
    proof (intro allI impI)
      fix j'
      assume a: "j < j' \<and> j' < length ?cols"
      from nth_eq_iff_index_eq[OF assms(5), of j' j] a j show "?cols ! j' \<noteq> ?cols ! j" by simp
    qed
    from look j nodup have "m (?cols ! j) = Some (?args ! j)" by simp
    then have v: "m (col_Name (columns ! j)) =
        Some (GetValue P (formatValue P (snd (decoded ! j)) (hd (col_Tp (columns ! j)))))"
      using j ld by simp
    from assms(4) j obtain tp tps where "col_Tp (columns ! j) = tp # tps"
      by (cases "col_Tp (columns ! j)") auto
    with v show ?thesis by simp
  qed
  have d4: "txn_DMLs txn ! i = ?dml"
    if h: "bl_Tp binlog = BinlogType_DML \<and> pbBinlogToTxn P binlog = Inr txn
         \<and> i < length (GetEvents (bl_DmlData binlog))
         \<and> GetEvents (bl_DmlData binlog) ! i = event" for binlog txn i
  proof -
    from h pbBinlogToTxn_DML_Inr[of binlog P txn]
    have "map (eventToDML P) (GetEvents (bl_DmlData binlog)) = map Inr (txn_DMLs txn)" by simp
    from map_Inr_nth[OF this] h have "eventToDML P event = Inr (txn_DMLs txn ! i)" by auto
    with ev show ?thesis by simp
  qed
  have "eventToDML P event = Inr ?dml
           \<and> dml_Values ?dml = Some m \<and> dml_OldValues ?dml = None
           \<and> dom m = set (map col_Name columns)
           \<and> card (dom m) = length columns
           \<and> (\<forall>j < length columns. \<exists>tp tps. col_Tp (columns ! j) = tp # tps
                \<and> m (col_Name (columns ! j)) =
                    Some (GetValue P (formatValue P (snd (decoded ! j)) tp)))
           \<and> (\<forall>binlog txn i. bl_Tp binlog = BinlogType_DML
                \<and> pbBinlogToTxn P binlog = Inr txn
                \<and> i < length (GetEvents (bl_DmlData binlog))
                \<and> GetEvents (bl_DmlData binlog) ! i = event
                \<longrightarrow> txn_DMLs txn ! i = ?dml)"
    using ev dm d2 d3 d4 by simp
  then show ?thesis by blast
qed

theorem insert_delete_values_witness:
  "\<exists>m. dml_Values ex_insert_dml = Some m
        \<and> dom m = {''id'', ''qty''}
        \<and> card (dom m) = 2
        \<and> m ''id'' = Some 10 \<and> m ''qty'' = Some 7"
proof -
  let ?e = "ex_event EventType_Insert [[1], [5]]"
  let ?b = "ex_dml [ex_event EventType_Update [[1], [5]], ?e]"
  let ?c1 = "\<lparr>col_Name = ''id'', col_Tp = [3], col_MysqlType = ''int'',
              col_Value = [7], col_ChangedValue = [9]\<rparr>"
  let ?c5 = "\<lparr>col_Name = ''qty'', col_Tp = [3], col_MysqlType = ''int'',
              col_Value = [4], col_ChangedValue = [4]\<rparr>"
  have h1: "ev_Tp ?e = EventType_Insert \<or> ev_Tp ?e = EventType_Delete"
    by (simp add: ex_event_def)
  have h2: "map (Unmarshal ex_deps) (ev_Row ?e) = map Inr [?c1, ?c5]"
    by (simp add: ex_defs)
  have h3: "map (\<lambda>c. DecodeOne ex_deps (col_Value c)) [?c1, ?c5] = map Inr [([], 7), ([], 4)]"
    by (simp add: ex_defs)
  have h4: "\<forall>c \<in> set [?c1, ?c5]. col_Tp c \<noteq> []" by simp
  have h5: "distinct (map col_Name [?c1, ?c5])" by simp
  have ev: "GetEvents (bl_DmlData ?b) = [ex_event EventType_Update [[1], [5]], ?e]"
    by (simp add: ex_dml_def GetEvents_def)
  have b: "bl_Tp ?b = BinlogType_DML \<and> pbBinlogToTxn ex_deps ?b =
             Inr \<lparr>txn_DDL = None, txn_DMLs = [ex_update_dml, ex_insert_dml]\<rparr>
         \<and> 1 < length (GetEvents (bl_DmlData ?b)) \<and> GetEvents (bl_DmlData ?b) ! 1 = ?e"
    using ex_two_events by (simp add: ev) (simp add: ex_dml_def)
  from insert_delete_values [OF h1 h2 h3 h4 h5] obtain dml m where
    r: "dml_Values dml = Some m" "dom m = set (map col_Name [?c1, ?c5])"
       "card (dom m) = length [?c1, ?c5]"
       "\<forall>j < length [?c1, ?c5]. \<exists>tp tps. col_Tp ([?c1, ?c5] ! j) = tp # tps
                \<and> m (col_Name ([?c1, ?c5] ! j)) =
                    Some (GetValue ex_deps (formatValue ex_deps (snd ([([], 7), ([]::byte list, 4::byte)] ! j)) tp))"
       "\<forall>binlog txn i. bl_Tp binlog = BinlogType_DML
                \<and> pbBinlogToTxn ex_deps binlog = Inr txn
                \<and> i < length (GetEvents (bl_DmlData binlog))
                \<and> GetEvents (bl_DmlData binlog) ! i = ?e
                \<longrightarrow> txn_DMLs txn ! i = dml"
    by blast
  from r(5) b have "dml = ex_insert_dml" by fastforce
  moreover from r(4)[rule_format, of 0] have "m ''id'' = Some 10" by (simp add: ex_deps_def)
  moreover from r(4)[rule_format, of 1] have "m ''qty'' = Some 7" by (simp add: ex_deps_def)
  moreover from r(2) have "dom m = {''id'', ''qty''}" by simp
  moreover from r(3) have "card (dom m) = 2" by simp
  ultimately show ?thesis using r(1) by blast
qed

text \<open>
  C2, as the claim states it, fails on a row with two columns of the same name: the map
  has one key for the two columns, and the value under it is the value of the second
  column (the last write wins), not the value of the first.
\<close>

theorem insert_duplicate_names_counterexample:
  "map (Unmarshal ex_deps) [[1], [4]] =
     map Inr [\<lparr>col_Name = ''id'', col_Tp = [3], col_MysqlType = ''int'',
                col_Value = [7], col_ChangedValue = [9]\<rparr>,
              \<lparr>col_Name = ''id'', col_Tp = [3], col_MysqlType = ''int'',
                col_Value = [8], col_ChangedValue = [6]\<rparr>]
   \<and> DecodeOne ex_deps [7] = Inr ([], 7)
   \<and> DecodeOne ex_deps [8] = Inr ([], 8)
   \<and> pbBinlogToTxn ex_deps (ex_dml [ex_event EventType_Insert [[1], [4]]]) =
       Inr \<lparr>txn_DDL = None,
            txn_DMLs = [\<lparr>dml_Database = ''shop'', dml_Table = ''orders'',
                         dml_Tp = InsertDMLType, dml_Values = Some [''id'' \<mapsto> 11],
                         dml_OldValues = None\<rparr>]\<rparr>
   \<and> card (dom [''id'' \<mapsto> 11::nat]) = 1
   \<and> [''id'' \<mapsto> 11::nat] ''id'' \<noteq> Some (GetValue ex_deps (formatValue ex_deps 7 3))"
proof (intro conjI)
  show "map (Unmarshal ex_deps) [[1], [4]] =
     map Inr [\<lparr>col_Name = ''id'', col_Tp = [3], col_MysqlType = ''int'',
                col_Value = [7], col_ChangedValue = [9]\<rparr>,
              \<lparr>col_Name = ''id'', col_Tp = [3], col_MysqlType = ''int'',
                col_Value = [8], col_ChangedValue = [6]\<rparr>]"
    by (simp add: ex_defs)
  show "DecodeOne ex_deps [7] = Inr ([], 7)" by (simp add: ex_defs)
  show "DecodeOne ex_deps [8] = Inr ([], 8)" by (simp add: ex_defs)
  show "pbBinlogToTxn ex_deps (ex_dml [ex_event EventType_Insert [[1], [4]]]) =
       Inr \<lparr>txn_DDL = None,
            txn_DMLs = [\<lparr>dml_Database = ''shop'', dml_Table = ''orders'',
                         dml_Tp = InsertDMLType, dml_Values = Some [''id'' \<mapsto> 11],
                         dml_OldValues = None\<rparr>]\<rparr>"
    by (simp add: pbBinlogToTxn_def GetEvents_def eventToDML_def singleImage_def
          genColsAndArgs_def setValues.simps ex_defs)
  show "card (dom [''id'' \<mapsto> 11::nat]) = 1" by simp
  show "[''id'' \<mapsto> 11::nat] ''id'' \<noteq> Some (GetValue ex_deps (formatValue ex_deps 7 3))"
    by (simp add: ex_deps_def)
qed

end
